theory Spec2Isabelle
  imports Main
begin

section \<open>Values carried by the message channel\<close>

text \<open>
  The hook \<open>useMcpHost\<close> (src/ui/hooks/useMcpHost.ts) reads \<open>event.data\<close>, an untyped
  JavaScript value, and inspects it field by field. The values are modelled as JSON-like
  terms. Numbers are integers (request ids are); an object is the list of its own
  enumerable properties in the order \<open>Object.entries\<close> reports them.
\<close>

datatype json =
    JUndefined
  | JNull
  | JBool bool
  | JNum int
  | JStr string
  | JArr "json list"
  | JObj "(string \<times> json) list"

text \<open>JavaScript truthiness, as tested by \<open>if (v)\<close>, \<open>!v\<close>, \<open>a || b\<close>.\<close>

fun truthy :: "json \<Rightarrow> bool" where
  "truthy JUndefined = False"
| "truthy JNull = False"
| "truthy (JBool b) = b"
| "truthy (JNum n) = (n \<noteq> 0)"
| "truthy (JStr s) = (s \<noteq> [])"
| "truthy (JArr xs) = True"
| "truthy (JObj kvs) = True"

text \<open>\<open>typeof v === "object"\<close> (which also holds of \<open>null\<close>).\<close>

fun typeof_object :: "json \<Rightarrow> bool" where
  "typeof_object JNull = True"
| "typeof_object (JArr xs) = True"
| "typeof_object (JObj kvs) = True"
| "typeof_object v = False"

text \<open>
  The property read \<open>v.k\<close> and the optional read \<open>v?.k\<close>. A missing property reads as
  \<open>undefined\<close>; so does any of the property names the hook uses on a primitive or an
  array. A plain read of \<open>null\<close> or \<open>undefined\<close> would throw, but every plain read in the
  hook is on a value already known to be truthy, so one function covers both.
\<close>

fun get_prop :: "json \<Rightarrow> string \<Rightarrow> json" where
  "get_prop (JObj kvs) k = (case map_of kvs k of Some v \<Rightarrow> v | None \<Rightarrow> JUndefined)"
| "get_prop v k = JUndefined"

text \<open>\<open>a || b\<close>.\<close>

definition or_else :: "json \<Rightarrow> json \<Rightarrow> json" where
  "or_else a b = (if truthy a then a else b)"

text \<open>Decimal rendering of an array index, for the keys \<open>Object.entries\<close> gives.\<close>

function show_nat :: "nat \<Rightarrow> string" where
  "show_nat n =
     (if n < 10 then [char_of (48 + n)]
      else show_nat (n div 10) @ [char_of (48 + n mod 10)])"
  by pat_completeness auto
termination
  by (relation "measure (\<lambda>n. n)") auto

text \<open>
  \<open>Object.entries(v)\<close> for a truthy \<open>v\<close>: the properties of an object, the indexed
  elements of an array, the indexed characters of a string, nothing for a number or a
  boolean.
\<close>

fun entries :: "json \<Rightarrow> (string \<times> json) list" where
  "entries (JObj kvs) = kvs"
| "entries (JArr xs) = zip (map show_nat [0..<length xs]) xs"
| "entries (JStr s) = zip (map show_nat [0..<length s]) (map (\<lambda>c. JStr [c]) s)"
| "entries v = []"

text \<open>\<open>String.prototype.includes\<close>: does \<open>s\<close> contain \<open>sub\<close> as a substring.\<close>

fun starts_with :: "string \<Rightarrow> string \<Rightarrow> bool" where
  "starts_with s [] = True"
| "starts_with [] (c # cs) = False"
| "starts_with (d # ds) (c # cs) = (d = c \<and> starts_with ds cs)"

fun str_includes :: "string \<Rightarrow> string \<Rightarrow> bool" where
  "str_includes [] sub = (sub = [])"
| "str_includes (d # ds) sub = (starts_with (d # ds) sub \<or> str_includes ds sub)"

section \<open>Configuration, effects and state of the hook\<close>

text \<open>
  The callbacks of \<open>UseMcpHostConfig\<close> are opaque functions of the embedding application.
  A registered callback is a name; calling it is recorded as an effect. The callbacks are
  taken to return normally and not to call back into the hook while they run. The
  teardown hook is the exception: the source catches its failure, so what a call of it
  does is part of the configuration.
\<close>

type_synonym callback = nat

datatype teardown_hook =
    ThrowsSync json      \<comment> \<open>the call itself throws the given value\<close>
  | ReturnsPromise       \<comment> \<open>the call returns a value that is awaited\<close>

record config =
  name :: string
  version :: string
  onToolInput :: "callback option"
  onToolResult :: "callback option"
  onThemeChange :: "callback option"
  onTeardown :: "teardown_hook option"
  onAppState :: "callback option"

text \<open>How an awaited promise settles.\<close>

datatype settle = Fulfilled | Rejected json

datatype exn = TypeError

text \<open>
  The effects of the hook, in the order they happen. \<open>Resolve\<close> and \<open>Reject\<close> are the
  calls of the \<open>resolve\<close> and \<open>reject\<close> closures of the promise \<open>sendRequest\<close> made for a
  request id; \<open>Reject i v\<close> is \<open>reject(new Error(v))\<close>. \<open>Return\<close> and \<open>Throw\<close> are the
  outcome of the \<open>callTool\<close> invocation that awaits that promise.
\<close>

datatype action =
    PostMessage json               \<comment> \<open>\<open>window.parent.postMessage(m, "*")\<close>\<close>
  | SetAttribute string string     \<comment> \<open>\<open>document.documentElement.setAttribute\<close>\<close>
  | SetProperty string json        \<comment> \<open>\<open>root.style.setProperty\<close>\<close>
  | Invoke callback json           \<comment> \<open>a registered callback called with one argument\<close>
  | InvokeTeardown                 \<comment> \<open>\<open>onTeardown()\<close>\<close>
  | Resolve int json
  | Reject int json
  | Return int json
  | Throw int json
  | SetIsReady bool                \<comment> \<open>\<open>setIsReady\<close>\<close>
  | ConsoleLog "json list"
  | ConsoleError "json list"
  | Uncaught exn                   \<comment> \<open>an exception that escapes the message listener\<close>

text \<open>
  A pending record holds the \<open>resolve\<close> and \<open>reject\<close> closures of one promise. The promise
  is identified with its request id; what the record keeps here is the \<open>onToolResult\<close>
  that the awaiting \<open>callTool\<close> closure captured when it was called.
\<close>

datatype pending = Pending (awaiter: "callback option")

text \<open>
  \<open>isReady\<close>, \<open>requestIdRef\<close> and \<open>pendingRequestsRef\<close> are the hook's own state. The
  rest is the part of the JavaScript runtime the hook relies on: a clock in
  milliseconds, the timers set by \<open>setTimeout\<close> (due time and request id, in the order
  they were set), and the teardown handlers suspended at \<open>await onTeardown()\<close> (each
  under a fresh token, with the request id it will answer).
\<close>

record state =
  isReady :: bool
  requestIdRef :: int
  pendingRequestsRef :: "int \<rightharpoonup> pending"
  now :: nat
  timers :: "(nat \<times> int) list"
  teardownSeq :: nat
  teardownWaiting :: "nat \<rightharpoonup> json"

definition initial_state :: state where
  "initial_state =
     \<lparr>isReady = False, requestIdRef = 1, pendingRequestsRef = Map.empty,
      now = 0, timers = [], teardownSeq = 0, teardownWaiting = Map.empty\<rparr>"

section \<open>Outbound operations\<close>

definition sendMessage :: "json \<Rightarrow> action list" where
  "sendMessage message = [PostMessage message]"

definition request_timeout :: nat where
  "request_timeout = 30000"

text \<open>
  \<open>sendRequest\<close>: take the next id, register the pending record, post the request and set
  the timer. Returns the id, which stands for the promise.
\<close>

definition sendRequest :: "string \<Rightarrow> json \<Rightarrow> pending \<Rightarrow> state \<Rightarrow> int \<times> state \<times> action list" where
  "sendRequest method params p s =
     (let i = requestIdRef s in
      (i,
       s\<lparr>requestIdRef := i + 1,
         pendingRequestsRef := (pendingRequestsRef s)(i \<mapsto> p),
         timers := timers s @ [(now s + request_timeout, i)]\<rparr>,
       sendMessage (JObj [(''jsonrpc'', JStr ''2.0''), (''id'', JNum i),
                          (''method'', JStr method), (''params'', params)])))"

definition sendNotification :: "string \<Rightarrow> json \<Rightarrow> action list" where
  "sendNotification method params =
     sendMessage (JObj [(''jsonrpc'', JStr ''2.0''), (''method'', JStr method),
                        (''params'', params)])"

definition normalize_theme :: "json \<Rightarrow> string" where
  "normalize_theme theme = (if theme = JStr ''light'' then ''light'' else ''dark'')"

definition applyTheme :: "config \<Rightarrow> json \<Rightarrow> action list" where
  "applyTheme cfg theme =
     SetAttribute ''data-theme'' (normalize_theme theme) #
     (case onThemeChange cfg of
        Some cb \<Rightarrow> [Invoke cb (JStr (normalize_theme theme))]
      | None \<Rightarrow> [])"

definition applyStyleVariables :: "json \<Rightarrow> action list" where
  "applyStyleVariables variables =
     concat (map (\<lambda>(key, val). if truthy val then [SetProperty key val] else [])
                 (entries variables))"

text \<open>
  \<open>callTool\<close> up to its \<open>await\<close>: the request is sent and the closure's \<open>onToolResult\<close>
  is kept with the pending record.
\<close>

definition callTool :: "config \<Rightarrow> string \<Rightarrow> json \<Rightarrow> state \<Rightarrow> int \<times> state \<times> action list" where
  "callTool cfg toolName args s =
     sendRequest ''tools/call'' (JObj [(''name'', JStr toolName), (''arguments'', args)])
       (Pending (onToolResult cfg)) s"

text \<open>\<open>callTool\<close> after its \<open>await\<close>, when the promise was resolved and when it was rejected.\<close>

definition callTool_resume :: "pending \<Rightarrow> int \<Rightarrow> json \<Rightarrow> action list" where
  "callTool_resume p i result =
     (case awaiter p of Some cb \<Rightarrow> [Invoke cb result] | None \<Rightarrow> []) @ [Return i result]"

definition callTool_abort :: "int \<Rightarrow> json \<Rightarrow> action list" where
  "callTool_abort i err = [Throw i err]"

text \<open>The callback given to \<open>setTimeout\<close> for request \<open>i\<close>.\<close>

definition timeout_fired :: "int \<Rightarrow> state \<Rightarrow> state \<times> action list" where
  "timeout_fired i s =
     (case pendingRequestsRef s i of
        None \<Rightarrow> (s, [])
      | Some p \<Rightarrow>
          (s\<lparr>pendingRequestsRef := (pendingRequestsRef s)(i := None)\<rparr>,
           Reject i (JStr ''Request timeout'') # callTool_abort i (JStr ''Request timeout'')))"

section \<open>The message listener\<close>

text \<open>
  The response branch. \<open>pendingRequestsRef.current.get(data.id)\<close> finds a record only
  when \<open>data.id\<close> is a number that is a key of the map.
\<close>

definition handleResponse :: "json \<Rightarrow> state \<Rightarrow> state \<times> action list" where
  "handleResponse data s =
     (case get_prop data ''id'' of
        JNum i \<Rightarrow>
          (case pendingRequestsRef s i of
             None \<Rightarrow> (s, [])
           | Some p \<Rightarrow>
               (s\<lparr>pendingRequestsRef := (pendingRequestsRef s)(i := None)\<rparr>,
                if truthy (get_prop data ''error'') then
                  ConsoleError [JStr ''Error response from host:'', data] #
                  Reject i (or_else (get_prop (get_prop data ''error'') ''message'') (JStr ''Unknown error'')) #
                  callTool_abort i (or_else (get_prop (get_prop data ''error'') ''message'') (JStr ''Unknown error''))
                else
                  Resolve i (get_prop data ''result'') # callTool_resume p i (get_prop data ''result'')))
      | other \<Rightarrow> (s, []))"

definition initialize_response :: "config \<Rightarrow> json \<Rightarrow> json" where
  "initialize_response cfg i =
     JObj [(''jsonrpc'', JStr ''2.0''), (''id'', i),
           (''result'',
            JObj [(''protocolVersion'', JStr ''2025-06-18''),
                  (''capabilities'', JObj []),
                  (''clientInfo'',
                   JObj [(''name'', JStr (name cfg)), (''version'', JStr (version cfg))])])]"

definition handleInitialize :: "config \<Rightarrow> json \<Rightarrow> state \<Rightarrow> state \<times> action list" where
  "handleInitialize cfg data s =
     (let hostContext = get_prop (get_prop data ''params'') ''hostContext'' in
      (s\<lparr>isReady := True\<rparr>,
       [ConsoleLog [JStr ''Initializing:'', data]] @
       (if truthy (get_prop hostContext ''theme'')
        then applyTheme cfg (get_prop hostContext ''theme'') else []) @
       (if truthy (get_prop (get_prop hostContext ''styles'') ''variables'')
        then applyStyleVariables (get_prop (get_prop hostContext ''styles'') ''variables'') else []) @
       (if truthy (get_prop hostContext ''appState'') then
          (case onAppState cfg of
             Some cb \<Rightarrow> [Invoke cb (get_prop hostContext ''appState'')]
           | None \<Rightarrow> [])
        else []) @
       [PostMessage (initialize_response cfg (get_prop data ''id''))] @
       sendNotification ''ui/notifications/initialized'' (JObj []) @
       [SetIsReady True]))"

definition handleToolInput :: "config \<Rightarrow> json \<Rightarrow> action list" where
  "handleToolInput cfg data =
     (case onToolInput cfg of
        Some cb \<Rightarrow> [Invoke cb (or_else (get_prop (get_prop data ''params'') ''arguments'') (JObj []))]
      | None \<Rightarrow> [])"

definition handleToolResult :: "config \<Rightarrow> json \<Rightarrow> action list" where
  "handleToolResult cfg data =
     (case onToolResult cfg of
        Some cb \<Rightarrow> [Invoke cb (or_else (get_prop data ''params'') (JObj []))]
      | None \<Rightarrow> [])"

definition handleHostContextChanged :: "config \<Rightarrow> json \<Rightarrow> action list" where
  "handleHostContextChanged cfg data =
     [ConsoleLog [JStr ''Host context changed:'', data]] @
     (if truthy (get_prop (get_prop data ''params'') ''theme'')
      then applyTheme cfg (get_prop (get_prop data ''params'') ''theme'') else []) @
     (if truthy (get_prop (get_prop (get_prop data ''params'') ''styles'') ''variables'')
      then applyStyleVariables (get_prop (get_prop (get_prop data ''params'') ''styles'') ''variables'')
      else [])"

definition teardown_response :: "json \<Rightarrow> json" where
  "teardown_response i = JObj [(''jsonrpc'', JStr ''2.0''), (''id'', i), (''result'', JObj [])]"

text \<open>What \<open>handleTeardown\<close> does after the \<open>await\<close>, in its \<open>try\<close> and in its \<open>catch\<close>.\<close>

definition teardown_finish :: "json \<Rightarrow> settle \<Rightarrow> action list" where
  "teardown_finish i outcome =
     (case outcome of
        Fulfilled \<Rightarrow>
          [PostMessage (teardown_response i),
           ConsoleLog [JStr ''Teardown complete, response sent'']]
      | Rejected e \<Rightarrow>
          [ConsoleError [JStr ''Teardown error:'', e],
           PostMessage (teardown_response i)])"

text \<open>
  \<open>handleTeardown()\<close> up to its first suspension. Without a hook it runs to its end at
  once; a hook that throws when called lands in the \<open>catch\<close> at once; otherwise the
  handler is suspended until the awaited value settles.
\<close>

definition handleTeardown :: "config \<Rightarrow> json \<Rightarrow> state \<Rightarrow> state \<times> action list" where
  "handleTeardown cfg data s =
     (case onTeardown cfg of
        None \<Rightarrow>
          (s, ConsoleLog [JStr ''Resource teardown requested:'', data] #
              teardown_finish (get_prop data ''id'') Fulfilled)
      | Some (ThrowsSync e) \<Rightarrow>
          (s, ConsoleLog [JStr ''Resource teardown requested:'', data] # InvokeTeardown #
              teardown_finish (get_prop data ''id'') (Rejected e))
      | Some ReturnsPromise \<Rightarrow>
          (s\<lparr>teardownSeq := Suc (teardownSeq s),
             teardownWaiting := (teardownWaiting s)(teardownSeq s \<mapsto> get_prop data ''id'')\<rparr>,
           [ConsoleLog [JStr ''Resource teardown requested:'', data], InvokeTeardown]))"

text \<open>The awaited value of the suspended handler \<open>k\<close> settles.\<close>

definition teardown_settled :: "nat \<Rightarrow> settle \<Rightarrow> state \<Rightarrow> state \<times> action list" where
  "teardown_settled k outcome s =
     (case teardownWaiting s k of
        None \<Rightarrow> (s, [])
      | Some i \<Rightarrow>
          (s\<lparr>teardownWaiting := (teardownWaiting s)(k := None)\<rparr>, teardown_finish i outcome))"

text \<open>
  The last statement of the listener: \<open>data.method && !data.method.includes("tool")\<close>.
  \<open>includes\<close> exists on strings and arrays only; on any other truthy value the call
  throws a TypeError.
\<close>

definition handleUnhandled :: "json \<Rightarrow> state \<Rightarrow> exn + (state \<times> action list)" where
  "handleUnhandled data s =
     (if truthy (get_prop data ''method'') then
        (case get_prop data ''method'' of
           JStr m \<Rightarrow>
             Inr (s, if \<not> str_includes m ''tool''
                     then [ConsoleLog [JStr ''Unhandled message:'', data]] else [])
         | JArr xs \<Rightarrow>
             Inr (s, if JStr ''tool'' \<notin> set xs
                     then [ConsoleLog [JStr ''Unhandled message:'', data]] else [])
         | other \<Rightarrow> Inl TypeError)
      else Inr (s, []))"

text \<open>The test that sends a message to the response branch.\<close>

definition is_response :: "json \<Rightarrow> bool" where
  "is_response data =
     (get_prop data ''id'' \<noteq> JUndefined \<and>
      (get_prop data ''result'' \<noteq> JUndefined \<or> get_prop data ''error'' \<noteq> JUndefined))"

definition handleMessage :: "config \<Rightarrow> json \<Rightarrow> state \<Rightarrow> exn + (state \<times> action list)" where
  "handleMessage cfg data s =
     (if \<not> truthy data \<or> \<not> typeof_object data then Inr (s, [])
      else if is_response data then Inr (handleResponse data s)
      else if get_prop data ''method'' = JStr ''ui/initialize'' then
        Inr (handleInitialize cfg data s)
      else if get_prop data ''method'' = JStr ''ui/notifications/tool-input'' then
        Inr (s, handleToolInput cfg data)
      else if get_prop data ''method'' = JStr ''ui/notifications/tool-result'' then
        Inr (s, handleToolResult cfg data)
      else if get_prop data ''method'' = JStr ''ui/notifications/host-context-changed'' then
        Inr (s, handleHostContextChanged cfg data)
      else if get_prop data ''method'' = JStr ''ui/resource-teardown''
              \<and> get_prop data ''id'' \<noteq> JUndefined then
        Inr (handleTeardown cfg data s)
      else handleUnhandled data s)"

section \<open>The event loop\<close>

text \<open>
  What can happen to the hook: a message arrives, the application calls \<open>callTool\<close> or
  \<open>sendNotification\<close>, time passes, or the value awaited by a suspended teardown handler
  settles. When time passes, every timer that has become due runs, in the order the
  timers were set (all have the same delay).
\<close>

datatype event =
    Message json
  | CallTool string json
  | Notify string json
  | Advance nat
  | TeardownSettled nat settle

fun fire_all :: "int list \<Rightarrow> state \<Rightarrow> state \<times> action list" where
  "fire_all [] s = (s, [])"
| "fire_all (i # is) s =
     (case timeout_fired i s of
        (s1, a1) \<Rightarrow> (case fire_all is s1 of (s2, a2) \<Rightarrow> (s2, a1 @ a2)))"

definition advance :: "nat \<Rightarrow> state \<Rightarrow> state \<times> action list" where
  "advance d s =
     (let t = now s + d in
      fire_all (map snd (filter (\<lambda>(due, i). due \<le> t) (timers s)))
        (s\<lparr>now := t, timers := filter (\<lambda>(due, i). \<not> due \<le> t) (timers s)\<rparr>))"

definition step :: "config \<Rightarrow> event \<Rightarrow> state \<Rightarrow> exn + (state \<times> action list)" where
  "step cfg ev s =
     (case ev of
        Message data \<Rightarrow> handleMessage cfg data s
      | CallTool toolName args \<Rightarrow>
          (case callTool cfg toolName args s of (i, s1, a1) \<Rightarrow> Inr (s1, a1))
      | Notify method params \<Rightarrow> Inr (s, sendNotification method params)
      | Advance d \<Rightarrow> Inr (advance d s)
      | TeardownSettled k outcome \<Rightarrow> Inr (teardown_settled k outcome s))"

text \<open>
  A run: the events in order, each with the configuration the hook has at that moment.
  An exception escaping the listener leaves the state as it was.
\<close>

fun run :: "(config \<times> event) list \<Rightarrow> state \<Rightarrow> state \<times> action list" where
  "run [] s = (s, [])"
| "run ((cfg, ev) # es) s =
     (case step cfg ev s of
        Inl e \<Rightarrow> (case run es s of (s2, a2) \<Rightarrow> (s2, Uncaught e # a2))
      | Inr (s1, a1) \<Rightarrow> (case run es s1 of (s2, a2) \<Rightarrow> (s2, a1 @ a2)))"

text \<open>The configuration of the bundled application (\<open>App\<close>): one result callback.\<close>

definition app_config :: config where
  "app_config =
     \<lparr>name = ''Todo List'', version = ''1.0.0'', onToolInput = None,
      onToolResult = Some 0, onThemeChange = None, onTeardown = None, onAppState = None\<rparr>"

section \<open>Reading a trace\<close>

text \<open>The messages posted to the host by a list of effects, in order.\<close>

fun posted :: "action list \<Rightarrow> json list" where
  "posted [] = []"
| "posted (PostMessage m # as) = m # posted as"
| "posted (a # as) = posted as"

text \<open>The attributes set on the document element, and the style properties set, in order.\<close>

fun attributes_set :: "action list \<Rightarrow> (string \<times> string) list" where
  "attributes_set [] = []"
| "attributes_set (SetAttribute k v # as) = (k, v) # attributes_set as"
| "attributes_set (a # as) = attributes_set as"

fun properties_set :: "action list \<Rightarrow> (string \<times> json) list" where
  "properties_set [] = []"
| "properties_set (SetProperty k v # as) = (k, v) # properties_set as"
| "properties_set (a # as) = properties_set as"

text \<open>The effects of one handled message; an escaping exception is the only effect then.\<close>

definition actions_of :: "exn + (state \<times> action list) \<Rightarrow> action list" where
  "actions_of r = (case r of Inl e \<Rightarrow> [Uncaught e] | Inr (s, as) \<Rightarrow> as)"

text \<open>A terminal outcome of the promise of request \<open>i\<close>: its \<open>resolve\<close> or its \<open>reject\<close> is called.\<close>

fun is_settle :: "int \<Rightarrow> action \<Rightarrow> bool" where
  "is_settle i (Resolve j v) = (j = i)"
| "is_settle i (Reject j v) = (j = i)"
| "is_settle i a = False"

definition outcomes :: "int \<Rightarrow> action list \<Rightarrow> action list" where
  "outcomes i as = filter (is_settle i) as"

text \<open>An inbound message that the listener takes for a response carrying id \<open>i\<close>.\<close>

fun is_response_for :: "int \<Rightarrow> event \<Rightarrow> bool" where
  "is_response_for i (Message data) = (is_response data \<and> get_prop data ''id'' = JNum i)"
| "is_response_for i ev = False"

text \<open>The time that passes during a list of events.\<close>

fun elapsed :: "(config \<times> event) list \<Rightarrow> nat" where
  "elapsed [] = 0"
| "elapsed ((cfg, Advance d) # es) = d + elapsed es"
| "elapsed ((cfg, ev) # es) = elapsed es"

text \<open>Two states agree on the requests in flight, the id counter, the clock and the timers.\<close>

definition same_requests :: "state \<Rightarrow> state \<Rightarrow> bool" where
  "same_requests s s' \<longleftrightarrow>
     pendingRequestsRef s' = pendingRequestsRef s \<and> requestIdRef s' = requestIdRef s
     \<and> now s' = now s \<and> timers s' = timers s"

text \<open>
  The invariant of a run, for a state and the trace that led to it: a pending request has
  no outcome yet and its id was given out; no request has two outcomes; an id not yet
  given out has none.
\<close>

definition settled_once :: "state \<Rightarrow> action list \<Rightarrow> bool" where
  "settled_once s tr \<longleftrightarrow>
     (\<forall>i. (pendingRequestsRef s i \<noteq> None \<longrightarrow> outcomes i tr = [] \<and> i < requestIdRef s)
        \<and> length (outcomes i tr) \<le> 1
        \<and> (requestIdRef s \<le> i \<longrightarrow> outcomes i tr = []))"

text \<open>
  An example run: a tool call, its response, a second response with the same id, and
  the expiry of the request's timer.
\<close>

definition example_run :: "(config \<times> event) list" where
  "example_run =
     [(app_config, CallTool ''todo_list'' (JObj [])),
      (app_config, Message (JObj [(''jsonrpc'', JStr ''2.0''), (''id'', JNum 1),
                                  (''result'', JObj [])])),
      (app_config, Message (JObj [(''jsonrpc'', JStr ''2.0''), (''id'', JNum 1),
                                  (''error'', JObj [(''message'', JStr ''late'')])])),
      (app_config, Advance 30000)]"

text \<open>
  An example of a quiet period: ten seconds pass, an unrelated notification arrives,
  twenty more seconds pass.
\<close>

definition quiet_run :: "(config \<times> event) list" where
  "quiet_run =
     [(app_config, Advance 10000),
      (app_config, Message (JObj [(''jsonrpc'', JStr ''2.0''),
                                  (''method'', JStr ''ui/notifications/tool-input''),
                                  (''params'', JObj [])])),
      (app_config, Advance 20000)]"

text \<open>
  A request waits for its timeout: it is pending, its one timer is set for \<open>due\<close>, which
  is still ahead, and its id was given out.
\<close>

definition waiting :: "int \<Rightarrow> nat \<Rightarrow> state \<Rightarrow> bool" where
  "waiting i due s \<longleftrightarrow>
     pendingRequestsRef s i \<noteq> None \<and> (due, i) \<in> set (timers s)
     \<and> (\<forall>x \<in> set (timers s). snd x = i \<longrightarrow> fst x = due)
     \<and> now s < due \<and> i < requestIdRef s"

text \<open>Every timer belongs to a request id that was given out.\<close>

definition timers_known :: "state \<Rightarrow> bool" where
  "timers_known s \<longleftrightarrow> (\<forall>(d, j) \<in> set (timers s). j < requestIdRef s)"

section \<open>Properties\<close>

subsection \<open>Helper facts\<close>

lemma posted_append: "posted (xs @ ys) = posted xs @ posted ys"
  by (induction xs rule: posted.induct) auto

lemma attributes_set_append: "attributes_set (xs @ ys) = attributes_set xs @ attributes_set ys"
  by (induction xs rule: attributes_set.induct) auto

lemma properties_set_append: "properties_set (xs @ ys) = properties_set xs @ properties_set ys"
  by (induction xs rule: properties_set.induct) auto

lemma is_response_obj: "is_response data \<Longrightarrow> truthy data \<and> typeof_object data"
  by (cases data) (auto simp: is_response_def)

lemma method_obj: "get_prop data ''method'' = JStr m \<Longrightarrow> truthy data \<and> typeof_object data"
  by (cases data) auto

subsection \<open>Unmatched responses\<close>

text \<open>
  C4. An inbound response (a message the listener sends to its response branch) whose id
  is not a key of the pending map is dropped: the listener returns normally, the state
  (pending map and readiness included) is the same, and there is no effect at all, so
  no callback is invoked.
\<close>

theorem unmatched_response_ignored:
  assumes "is_response data"
    and "\<forall>i. get_prop data ''id'' = JNum i \<longrightarrow> pendingRequestsRef s i = None"
  shows "handleMessage cfg data s = Inr (s, [])"
  using assms is_response_obj[OF assms(1)]
  by (auto simp: handleMessage_def handleResponse_def split: json.splits option.splits)

theorem unmatched_response_ignored_witness:
  "is_response (JObj [(''jsonrpc'', JStr ''2.0''), (''id'', JNum 7), (''result'', JObj [])])
   \<and> handleMessage app_config
        (JObj [(''jsonrpc'', JStr ''2.0''), (''id'', JNum 7), (''result'', JObj [])])
        initial_state = Inr (initial_state, [])"
proof -
  let ?d = "JObj [(''jsonrpc'', JStr ''2.0''), (''id'', JNum 7), (''result'', JObj [])]"
  have r: "is_response ?d" by (simp add: is_response_def)
  have p: "\<forall>i. get_prop ?d ''id'' = JNum i \<longrightarrow> pendingRequestsRef initial_state i = None"
    by (simp add: initial_state_def)
  show ?thesis using r unmatched_response_ignored[OF r p] by simp
qed

subsection \<open>Error responses\<close>

text \<open>
  C10. A response whose id is pending and whose \<open>error\<close> is truthy rejects the request,
  whatever its \<open>result\<close> field holds: the record is removed, and the promise is rejected
  with an error made from \<open>error.message\<close> when that is truthy (present and non-empty)
  and from the fixed text "Unknown error" otherwise. The awaiting \<open>callTool\<close> fails with
  the same error.
\<close>

theorem error_response_rejects:
  assumes "get_prop data ''id'' = JNum i"
    and "pendingRequestsRef s i = Some p"
    and "truthy (get_prop data ''error'')"
  shows "handleMessage cfg data s =
         Inr (s\<lparr>pendingRequestsRef := (pendingRequestsRef s)(i := None)\<rparr>,
              [ConsoleError [JStr ''Error response from host:'', data],
               Reject i (if truthy (get_prop (get_prop data ''error'') ''message'')
                         then get_prop (get_prop data ''error'') ''message''
                         else JStr ''Unknown error''),
               Throw i (if truthy (get_prop (get_prop data ''error'') ''message'')
                        then get_prop (get_prop data ''error'') ''message''
                        else JStr ''Unknown error'')])"
proof -
  have e: "get_prop data ''error'' \<noteq> JUndefined" using assms(3) by auto
  have r: "is_response data" using assms(1) e by (simp add: is_response_def)
  show ?thesis using r is_response_obj[OF r] assms
    by (simp add: handleMessage_def handleResponse_def or_else_def callTool_abort_def)
qed

theorem error_response_rejects_witness:
  "handleMessage app_config
     (JObj [(''jsonrpc'', JStr ''2.0''), (''id'', JNum 1), (''result'', JObj []),
            (''error'', JObj [(''code'', JNum (-32000)), (''message'', JStr ''boom'')])])
     (initial_state\<lparr>pendingRequestsRef := [1 \<mapsto> Pending (Some 0)]\<rparr>) =
   Inr (initial_state\<lparr>pendingRequestsRef := Map.empty\<rparr>,
        [ConsoleError [JStr ''Error response from host:'',
           JObj [(''jsonrpc'', JStr ''2.0''), (''id'', JNum 1), (''result'', JObj []),
                 (''error'', JObj [(''code'', JNum (-32000)), (''message'', JStr ''boom'')])]],
         Reject 1 (JStr ''boom''), Throw 1 (JStr ''boom'')])"
  using error_response_rejects[of
     "JObj [(''jsonrpc'', JStr ''2.0''), (''id'', JNum 1), (''result'', JObj []),
            (''error'', JObj [(''code'', JNum (-32000)), (''message'', JStr ''boom'')])]"
     1 "initial_state\<lparr>pendingRequestsRef := [1 \<mapsto> Pending (Some 0)]\<rparr>"
     "Pending (Some 0)" app_config]
  by (simp add: initial_state_def)

subsection \<open>Tool calls and readiness\<close>

text \<open>
  C1 (counterexample). Before any \<open>ui/initialize\<close> has been handled the session is not
  ready, and a \<open>callTool\<close> made then is neither rejected nor deferred: the
  \<open>tools/call\<close> request goes to the host at once.
\<close>

theorem callTool_unready_counterexample:
  "isReady initial_state = False \<and>
   step app_config (CallTool ''todo_list'' (JObj [])) initial_state =
     Inr (initial_state\<lparr>requestIdRef := 2,
                        pendingRequestsRef := [1 \<mapsto> Pending (Some 0)],
                        timers := [(30000, 1)]\<rparr>,
          [PostMessage (JObj [(''jsonrpc'', JStr ''2.0''), (''id'', JNum 1),
                              (''method'', JStr ''tools/call''),
                              (''params'', JObj [(''name'', JStr ''todo_list''),
                                                 (''arguments'', JObj [])])])])"
  by (simp add: step_def callTool_def sendRequest_def sendMessage_def initial_state_def
      app_config_def request_timeout_def)

text \<open>
  C1 (amended). \<open>callTool\<close> makes no readiness check. Whether or not the session is
  ready, it takes the next request id, registers the pending record, sets the timer and
  posts exactly one \<open>tools/call\<close> request to the host at once; readiness is left
  unchanged. Waiting for readiness is left to the caller, to whom the hook returns
  \<open>isReady\<close>.
\<close>

theorem callTool_sends_in_any_state:
  "step cfg (CallTool toolName args) (s\<lparr>isReady := b\<rparr>) =
     Inr (s\<lparr>isReady := b,
            requestIdRef := requestIdRef s + 1,
            pendingRequestsRef := (pendingRequestsRef s)(requestIdRef s \<mapsto> Pending (onToolResult cfg)),
            timers := timers s @ [(now s + 30000, requestIdRef s)]\<rparr>,
          [PostMessage (JObj [(''jsonrpc'', JStr ''2.0''), (''id'', JNum (requestIdRef s)),
                              (''method'', JStr ''tools/call''),
                              (''params'', JObj [(''name'', JStr toolName),
                                                 (''arguments'', args)])])])"
  by (simp add: step_def callTool_def sendRequest_def sendMessage_def request_timeout_def Let_def)

subsection \<open>Notifications and readiness\<close>

text \<open>
  C8 (counterexample). Before any \<open>ui/initialize\<close> has been handled, an inbound
  \<open>tool-result\<close> notification invokes the registered result callback.
\<close>

theorem notification_unready_counterexample:
  "isReady initial_state = False \<and>
   handleMessage app_config
     (JObj [(''jsonrpc'', JStr ''2.0''), (''method'', JStr ''ui/notifications/tool-result''),
            (''params'', JObj [(''structuredContent'', JObj [(''todos'', JArr [])])])])
     initial_state =
   Inr (initial_state,
        [Invoke 0 (JObj [(''structuredContent'', JObj [(''todos'', JArr [])])])])"
  by (simp add: handleMessage_def is_response_def handleToolResult_def or_else_def
      initial_state_def app_config_def)

text \<open>
  C8 (amended). The \<open>tool-input\<close>, \<open>tool-result\<close> and \<open>host-context-changed\<close>
  notifications are processed in every session state: the listener does not look at
  readiness (the only session state the hook keeps), so the callbacks invoked and the
  side effects applied are the same before the handshake as after it, and the state is
  left as it was.
\<close>

theorem notifications_processed_in_any_state:
  assumes "get_prop data ''id'' = JUndefined"
    and "get_prop data ''method'' = JStr m"
    and "m = ''ui/notifications/tool-input'' \<or> m = ''ui/notifications/tool-result''
         \<or> m = ''ui/notifications/host-context-changed''"
  shows "handleMessage cfg data (s\<lparr>isReady := b\<rparr>) =
         Inr (s\<lparr>isReady := b\<rparr>,
              if m = ''ui/notifications/tool-input'' then handleToolInput cfg data
              else if m = ''ui/notifications/tool-result'' then handleToolResult cfg data
              else handleHostContextChanged cfg data)"
  using assms method_obj[OF assms(2)]
  by (auto simp: handleMessage_def is_response_def)

theorem notifications_processed_in_any_state_witness:
  "handleMessage (app_config\<lparr>onToolInput := Some 3\<rparr>)
     (JObj [(''jsonrpc'', JStr ''2.0''), (''method'', JStr ''ui/notifications/tool-input''),
            (''params'', JObj [(''arguments'', JObj [(''text'', JStr ''milk'')])])])
     (initial_state\<lparr>isReady := False\<rparr>) =
   Inr (initial_state\<lparr>isReady := False\<rparr>, [Invoke 3 (JObj [(''text'', JStr ''milk'')])])"
  using notifications_processed_in_any_state[where
     data = "JObj [(''jsonrpc'', JStr ''2.0''), (''method'', JStr ''ui/notifications/tool-input''),
            (''params'', JObj [(''arguments'', JObj [(''text'', JStr ''milk'')])])]"
     and m = "''ui/notifications/tool-input''" and cfg = "app_config\<lparr>onToolInput := Some 3\<rparr>"
     and s = initial_state and b = False]
  by (simp add: handleToolInput_def or_else_def)

subsection \<open>The handshake\<close>

lemma posted_applyTheme: "posted (applyTheme cfg v) = []"
  by (simp add: applyTheme_def split: option.splits)

lemma posted_applyStyleVariables: "posted (applyStyleVariables v) = []"
proof -
  have "posted (concat (map (\<lambda>(key, val). if truthy val then [SetProperty key val] else []) kvs)) = []"
    for kvs :: "(string \<times> json) list"
    by (induction kvs) (auto simp: posted_append)
  then show ?thesis by (simp add: applyStyleVariables_def)
qed

text \<open>
  C5. An inbound \<open>ui/initialize\<close> request whose host context has the theme "light" is
  handled in this order: the light theme is applied (the document attribute is set, and
  the theme callback, if any, is told); style variables and restored state, if sent, are
  applied; one response carrying the request's id is posted, with the fixed protocol
  version, no capabilities and the client's name and version; one
  \<open>ui/notifications/initialized\<close> notification is posted; the session becomes ready.
  Nothing else is posted.
\<close>

theorem initialize_handshake:
  assumes "\<not> is_response data"
    and "get_prop data ''method'' = JStr ''ui/initialize''"
    and "hostContext = get_prop (get_prop data ''params'') ''hostContext''"
    and "get_prop hostContext ''theme'' = JStr ''light''"
  shows "handleMessage cfg data s =
         Inr (s\<lparr>isReady := True\<rparr>,
              [ConsoleLog [JStr ''Initializing:'', data],
               SetAttribute ''data-theme'' ''light''] @
              (case onThemeChange cfg of Some cb \<Rightarrow> [Invoke cb (JStr ''light'')] | None \<Rightarrow> []) @
              (if truthy (get_prop (get_prop hostContext ''styles'') ''variables'')
               then applyStyleVariables (get_prop (get_prop hostContext ''styles'') ''variables'')
               else []) @
              (if truthy (get_prop hostContext ''appState'') then
                 (case onAppState cfg of
                    Some cb \<Rightarrow> [Invoke cb (get_prop hostContext ''appState'')]
                  | None \<Rightarrow> [])
               else []) @
              [PostMessage
                 (JObj [(''jsonrpc'', JStr ''2.0''), (''id'', get_prop data ''id''),
                        (''result'',
                         JObj [(''protocolVersion'', JStr ''2025-06-18''),
                               (''capabilities'', JObj []),
                               (''clientInfo'',
                                JObj [(''name'', JStr (name cfg)),
                                      (''version'', JStr (version cfg))])])]),
               PostMessage
                 (JObj [(''jsonrpc'', JStr ''2.0''),
                        (''method'', JStr ''ui/notifications/initialized''),
                        (''params'', JObj [])]),
               SetIsReady True])
       \<and> posted (actions_of (handleMessage cfg data s)) =
           [JObj [(''jsonrpc'', JStr ''2.0''), (''id'', get_prop data ''id''),
                  (''result'',
                   JObj [(''protocolVersion'', JStr ''2025-06-18''),
                         (''capabilities'', JObj []),
                         (''clientInfo'',
                          JObj [(''name'', JStr (name cfg)),
                                (''version'', JStr (version cfg))])])],
            JObj [(''jsonrpc'', JStr ''2.0''),
                  (''method'', JStr ''ui/notifications/initialized''),
                  (''params'', JObj [])]]"
proof -
  have h: "handleMessage cfg data s = Inr (handleInitialize cfg data s)"
    using assms(1,2) method_obj[OF assms(2)] by (simp add: handleMessage_def)
  have th: "applyTheme cfg (JStr ''light'') =
        SetAttribute ''data-theme'' ''light'' #
        (case onThemeChange cfg of Some cb \<Rightarrow> [Invoke cb (JStr ''light'')] | None \<Rightarrow> [])"
    by (simp add: applyTheme_def normalize_theme_def split: option.splits)
  have eq: "handleMessage cfg data s =
         Inr (s\<lparr>isReady := True\<rparr>,
              [ConsoleLog [JStr ''Initializing:'', data],
               SetAttribute ''data-theme'' ''light''] @
              (case onThemeChange cfg of Some cb \<Rightarrow> [Invoke cb (JStr ''light'')] | None \<Rightarrow> []) @
              (if truthy (get_prop (get_prop hostContext ''styles'') ''variables'')
               then applyStyleVariables (get_prop (get_prop hostContext ''styles'') ''variables'')
               else []) @
              (if truthy (get_prop hostContext ''appState'') then
                 (case onAppState cfg of
                    Some cb \<Rightarrow> [Invoke cb (get_prop hostContext ''appState'')]
                  | None \<Rightarrow> [])
               else []) @
              [PostMessage (initialize_response cfg (get_prop data ''id'')),
               PostMessage
                 (JObj [(''jsonrpc'', JStr ''2.0''),
                        (''method'', JStr ''ui/notifications/initialized''),
                        (''params'', JObj [])]),
               SetIsReady True])"
    unfolding h assms(3) using assms(4)[unfolded assms(3)]
    by (simp add: handleInitialize_def Let_def th sendNotification_def sendMessage_def)
  have po: "posted (actions_of (handleMessage cfg data s)) =
        [initialize_response cfg (get_prop data ''id''),
         JObj [(''jsonrpc'', JStr ''2.0''),
               (''method'', JStr ''ui/notifications/initialized''),
               (''params'', JObj [])]]"
    unfolding eq
    by (simp add: actions_of_def posted_append posted_applyStyleVariables split: option.splits)
  show ?thesis using eq po by (simp add: initialize_response_def)
qed

theorem initialize_handshake_witness:
  "handleMessage app_config
     (JObj [(''jsonrpc'', JStr ''2.0''), (''id'', JNum 42), (''method'', JStr ''ui/initialize''),
            (''params'', JObj [(''hostContext'', JObj [(''theme'', JStr ''light'')])])])
     initial_state =
   Inr (initial_state\<lparr>isReady := True\<rparr>,
        [ConsoleLog [JStr ''Initializing:'',
           JObj [(''jsonrpc'', JStr ''2.0''), (''id'', JNum 42), (''method'', JStr ''ui/initialize''),
                 (''params'', JObj [(''hostContext'', JObj [(''theme'', JStr ''light'')])])]],
         SetAttribute ''data-theme'' ''light'',
         PostMessage
           (JObj [(''jsonrpc'', JStr ''2.0''), (''id'', JNum 42),
                  (''result'',
                   JObj [(''protocolVersion'', JStr ''2025-06-18''),
                         (''capabilities'', JObj []),
                         (''clientInfo'',
                          JObj [(''name'', JStr ''Todo List''),
                                (''version'', JStr ''1.0.0'')])])]),
         PostMessage
           (JObj [(''jsonrpc'', JStr ''2.0''),
                  (''method'', JStr ''ui/notifications/initialized''),
                  (''params'', JObj [])]),
         SetIsReady True])"
  using initialize_handshake[where
     data = "JObj [(''jsonrpc'', JStr ''2.0''), (''id'', JNum 42), (''method'', JStr ''ui/initialize''),
            (''params'', JObj [(''hostContext'', JObj [(''theme'', JStr ''light'')])])]"
     and hostContext = "JObj [(''theme'', JStr ''light'')]"
     and cfg = app_config and s = initial_state]
  by (simp add: is_response_def app_config_def)

subsection \<open>Teardown\<close>

text \<open>
  C7. An inbound \<open>ui/resource-teardown\<close> request is always acknowledged exactly once, with
  a success response that carries the request's id and an empty result. Without a
  cleanup hook, or with one that throws when called, the response is posted at once.
  With a hook whose result is awaited, nothing is posted until that result settles;
  when it settles, fulfilled or rejected, the one response is posted, and the handler is
  finished: nothing more is posted for it.
\<close>

theorem teardown_always_acknowledged:
  assumes "\<not> is_response data"
    and "get_prop data ''method'' = JStr ''ui/resource-teardown''"
    and "get_prop data ''id'' \<noteq> JUndefined"
    and "ack = JObj [(''jsonrpc'', JStr ''2.0''), (''id'', get_prop data ''id''), (''result'', JObj [])]"
  shows "(onTeardown cfg = None \<longrightarrow>
            handleMessage cfg data s =
              Inr (s, [ConsoleLog [JStr ''Resource teardown requested:'', data],
                       PostMessage ack,
                       ConsoleLog [JStr ''Teardown complete, response sent'']]))
       \<and> (\<forall>e. onTeardown cfg = Some (ThrowsSync e) \<longrightarrow>
            handleMessage cfg data s =
              Inr (s, [ConsoleLog [JStr ''Resource teardown requested:'', data],
                       InvokeTeardown,
                       ConsoleError [JStr ''Teardown error:'', e],
                       PostMessage ack]))
       \<and> (onTeardown cfg = Some ReturnsPromise \<longrightarrow>
            handleMessage cfg data s =
              Inr (s\<lparr>teardownSeq := Suc (teardownSeq s),
                     teardownWaiting := (teardownWaiting s)(teardownSeq s \<mapsto> get_prop data ''id'')\<rparr>,
                   [ConsoleLog [JStr ''Resource teardown requested:'', data], InvokeTeardown])
          \<and> step cfg' (TeardownSettled (teardownSeq s) Fulfilled)
                (s\<lparr>teardownSeq := Suc (teardownSeq s),
                   teardownWaiting := (teardownWaiting s)(teardownSeq s \<mapsto> get_prop data ''id'')\<rparr>) =
              Inr (s\<lparr>teardownSeq := Suc (teardownSeq s),
                     teardownWaiting := (teardownWaiting s)(teardownSeq s := None)\<rparr>,
                   [PostMessage ack, ConsoleLog [JStr ''Teardown complete, response sent'']])
          \<and> (\<forall>e. step cfg' (TeardownSettled (teardownSeq s) (Rejected e))
                (s\<lparr>teardownSeq := Suc (teardownSeq s),
                   teardownWaiting := (teardownWaiting s)(teardownSeq s \<mapsto> get_prop data ''id'')\<rparr>) =
              Inr (s\<lparr>teardownSeq := Suc (teardownSeq s),
                     teardownWaiting := (teardownWaiting s)(teardownSeq s := None)\<rparr>,
                   [ConsoleError [JStr ''Teardown error:'', e], PostMessage ack]))
          \<and> (\<forall>outcome. step cfg' (TeardownSettled (teardownSeq s) outcome)
                (s\<lparr>teardownSeq := Suc (teardownSeq s),
                   teardownWaiting := (teardownWaiting s)(teardownSeq s := None)\<rparr>) =
              Inr (s\<lparr>teardownSeq := Suc (teardownSeq s),
                     teardownWaiting := (teardownWaiting s)(teardownSeq s := None)\<rparr>, [])))"
proof -
  have h: "handleMessage cfg data s = Inr (handleTeardown cfg data s)"
    using assms(1,2,3) method_obj[OF assms(2)] by (simp add: handleMessage_def)
  show ?thesis
    unfolding h assms(4)
    by (simp add: handleTeardown_def teardown_finish_def teardown_response_def step_def
        teardown_settled_def)
qed

theorem teardown_always_acknowledged_witness:
  "handleMessage (app_config\<lparr>onTeardown := Some ReturnsPromise\<rparr>)
     (JObj [(''jsonrpc'', JStr ''2.0''), (''id'', JNum 9), (''method'', JStr ''ui/resource-teardown'')])
     initial_state =
   Inr (initial_state\<lparr>teardownSeq := 1, teardownWaiting := [0 \<mapsto> JNum 9]\<rparr>,
        [ConsoleLog [JStr ''Resource teardown requested:'',
           JObj [(''jsonrpc'', JStr ''2.0''), (''id'', JNum 9), (''method'', JStr ''ui/resource-teardown'')]],
         InvokeTeardown])
   \<and> step app_config (TeardownSettled 0 (Rejected (JStr ''disk gone'')))
       (initial_state\<lparr>teardownSeq := 1, teardownWaiting := [0 \<mapsto> JNum 9]\<rparr>) =
     Inr (initial_state\<lparr>teardownSeq := 1, teardownWaiting := Map.empty\<rparr>,
          [ConsoleError [JStr ''Teardown error:'', JStr ''disk gone''],
           PostMessage (JObj [(''jsonrpc'', JStr ''2.0''), (''id'', JNum 9), (''result'', JObj [])])])"
  using teardown_always_acknowledged[where
     data = "JObj [(''jsonrpc'', JStr ''2.0''), (''id'', JNum 9), (''method'', JStr ''ui/resource-teardown'')]"
     and cfg = "app_config\<lparr>onTeardown := Some ReturnsPromise\<rparr>"
     and cfg' = app_config
     and s = initial_state
     and ack = "JObj [(''jsonrpc'', JStr ''2.0''), (''id'', JNum 9), (''result'', JObj [])]"]
  by (simp add: is_response_def initial_state_def)

subsection \<open>Theme and style variables\<close>

lemma entries_falsy: "\<not> truthy v \<Longrightarrow> entries v = []"
  by (cases v) auto

lemma attributes_applyTheme:
  "attributes_set (applyTheme cfg v) = [(''data-theme'', normalize_theme v)]"
  by (simp add: applyTheme_def split: option.splits)

lemma properties_applyTheme: "properties_set (applyTheme cfg v) = []"
  by (simp add: applyTheme_def split: option.splits)

lemma attributes_applyStyleVariables: "attributes_set (applyStyleVariables v) = []"
proof -
  have "attributes_set (concat (map (\<lambda>(key, val). if truthy val then [SetProperty key val] else []) kvs)) = []"
    for kvs :: "(string \<times> json) list"
    by (induction kvs) (auto simp: attributes_set_append)
  then show ?thesis by (simp add: applyStyleVariables_def)
qed

lemma properties_applyStyleVariables:
  "properties_set (applyStyleVariables v) = filter (\<lambda>(key, val). truthy val) (entries v)"
proof -
  have "properties_set (concat (map (\<lambda>(key, val). if truthy val then [SetProperty key val] else []) kvs))
        = filter (\<lambda>(key, val). truthy val) kvs"
    for kvs :: "(string \<times> json) list"
    by (induction kvs) (auto simp: properties_set_append)
  then show ?thesis by (simp add: applyStyleVariables_def)
qed

text \<open>
  C9 (counterexample). A host context whose theme is the empty string is received in
  \<open>ui/initialize\<close>: no theme is applied, neither "light" nor "dark".
\<close>

theorem empty_theme_counterexample:
  "get_prop (get_prop (get_prop
       (JObj [(''jsonrpc'', JStr ''2.0''), (''id'', JNum 1), (''method'', JStr ''ui/initialize''),
              (''params'', JObj [(''hostContext'', JObj [(''theme'', JStr '''')])])])
       ''params'') ''hostContext'') ''theme'' = JStr ''''
   \<and> handleMessage app_config
       (JObj [(''jsonrpc'', JStr ''2.0''), (''id'', JNum 1), (''method'', JStr ''ui/initialize''),
              (''params'', JObj [(''hostContext'', JObj [(''theme'', JStr '''')])])])
       initial_state =
     Inr (initial_state\<lparr>isReady := True\<rparr>,
          [ConsoleLog [JStr ''Initializing:'',
             JObj [(''jsonrpc'', JStr ''2.0''), (''id'', JNum 1), (''method'', JStr ''ui/initialize''),
                   (''params'', JObj [(''hostContext'', JObj [(''theme'', JStr '''')])])]],
           PostMessage
             (JObj [(''jsonrpc'', JStr ''2.0''), (''id'', JNum 1),
                    (''result'',
                     JObj [(''protocolVersion'', JStr ''2025-06-18''),
                           (''capabilities'', JObj []),
                           (''clientInfo'',
                            JObj [(''name'', JStr ''Todo List''),
                                  (''version'', JStr ''1.0.0'')])])]),
           PostMessage
             (JObj [(''jsonrpc'', JStr ''2.0''),
                    (''method'', JStr ''ui/notifications/initialized''),
                    (''params'', JObj [])]),
           SetIsReady True])
   \<and> attributes_set (actions_of (handleMessage app_config
       (JObj [(''jsonrpc'', JStr ''2.0''), (''id'', JNum 1), (''method'', JStr ''ui/initialize''),
              (''params'', JObj [(''hostContext'', JObj [(''theme'', JStr '''')])])])
       initial_state)) = []"
  by (simp add: handleMessage_def is_response_def handleInitialize_def Let_def
      initialize_response_def sendNotification_def sendMessage_def app_config_def
      actions_of_def)

text \<open>
  C9 (amended). For every truthy (non-empty) theme value received in a host context,
  during \<open>ui/initialize\<close> or \<open>host-context-changed\<close>, the theme applied is exactly "light"
  when the value is "light" and "dark" for any other truthy value, recorded as the
  document attribute \<open>data-theme\<close>; a falsy theme value (absent, empty, null, zero,
  false) applies no theme. For every style-variable mapping received, each entry with a
  truthy value is set as a named style property, in order, and every entry with a falsy
  value is skipped.
\<close>

theorem host_context_side_effects:
  assumes "\<not> is_response data"
    and "get_prop data ''method'' = JStr ''ui/initialize''
           \<and> hostContext = get_prop (get_prop data ''params'') ''hostContext''
         \<or> get_prop data ''method'' = JStr ''ui/notifications/host-context-changed''
           \<and> hostContext = get_prop data ''params''"
    and "theme = get_prop hostContext ''theme''"
    and "variables = get_prop (get_prop hostContext ''styles'') ''variables''"
  shows "attributes_set (actions_of (handleMessage cfg data s)) =
           (if truthy theme
            then [(''data-theme'', if theme = JStr ''light'' then ''light'' else ''dark'')]
            else [])
       \<and> properties_set (actions_of (handleMessage cfg data s)) =
           filter (\<lambda>(key, val). truthy val) (entries variables)"
proof -
  from assms(2) have obj: "truthy data \<and> typeof_object data"
    using method_obj by blast
  from assms(2) show ?thesis
  proof
    assume a: "get_prop data ''method'' = JStr ''ui/initialize''
           \<and> hostContext = get_prop (get_prop data ''params'') ''hostContext''"
    then have h: "handleMessage cfg data s = Inr (handleInitialize cfg data s)"
      using assms(1) obj by (simp add: handleMessage_def)
    show ?thesis
      unfolding h assms(3,4) using a
      by (simp add: handleInitialize_def Let_def actions_of_def attributes_set_append
          properties_set_append attributes_applyTheme properties_applyTheme
          attributes_applyStyleVariables properties_applyStyleVariables
          sendNotification_def sendMessage_def normalize_theme_def entries_falsy
          split: option.splits)
  next
    assume a: "get_prop data ''method'' = JStr ''ui/notifications/host-context-changed''
           \<and> hostContext = get_prop data ''params''"
    then have h: "handleMessage cfg data s = Inr (s, handleHostContextChanged cfg data)"
      using assms(1) obj by (simp add: handleMessage_def)
    show ?thesis
      unfolding h assms(3,4) using a
      by (simp add: handleHostContextChanged_def actions_of_def attributes_set_append
          properties_set_append attributes_applyTheme properties_applyTheme
          attributes_applyStyleVariables properties_applyStyleVariables
          normalize_theme_def entries_falsy)
  qed
qed

theorem host_context_side_effects_witness:
  "attributes_set (actions_of (handleMessage app_config
     (JObj [(''jsonrpc'', JStr ''2.0''),
            (''method'', JStr ''ui/notifications/host-context-changed''),
            (''params'', JObj [(''theme'', JStr ''high-contrast''),
               (''styles'', JObj [(''variables'',
                  JObj [(''--bg'', JStr ''#fff''), (''--fg'', JStr ''''), (''--gap'', JStr ''4px'')])])])])
     initial_state)) = [(''data-theme'', ''dark'')]
   \<and> properties_set (actions_of (handleMessage app_config
     (JObj [(''jsonrpc'', JStr ''2.0''),
            (''method'', JStr ''ui/notifications/host-context-changed''),
            (''params'', JObj [(''theme'', JStr ''high-contrast''),
               (''styles'', JObj [(''variables'',
                  JObj [(''--bg'', JStr ''#fff''), (''--fg'', JStr ''''), (''--gap'', JStr ''4px'')])])])])
     initial_state)) = [(''--bg'', JStr ''#fff''), (''--gap'', JStr ''4px'')]"
  using host_context_side_effects[where
     data = "JObj [(''jsonrpc'', JStr ''2.0''),
            (''method'', JStr ''ui/notifications/host-context-changed''),
            (''params'', JObj [(''theme'', JStr ''high-contrast''),
               (''styles'', JObj [(''variables'',
                  JObj [(''--bg'', JStr ''#fff''), (''--fg'', JStr ''''), (''--gap'', JStr ''4px'')])])])]"
     and hostContext = "JObj [(''theme'', JStr ''high-contrast''),
               (''styles'', JObj [(''variables'',
                  JObj [(''--bg'', JStr ''#fff''), (''--fg'', JStr ''''), (''--gap'', JStr ''4px'')])])]"
     and theme = "JStr ''high-contrast''"
     and variables = "JObj [(''--bg'', JStr ''#fff''), (''--fg'', JStr ''''), (''--gap'', JStr ''4px'')]"
     and cfg = app_config and s = initial_state]
  by (simp add: is_response_def)

subsection \<open>Outcomes of one step\<close>

lemma outcomes_append: "outcomes i (xs @ ys) = outcomes i xs @ outcomes i ys"
  by (simp add: outcomes_def)

lemma outcomes_Nil: "outcomes i [] = []"
  by (simp add: outcomes_def)

lemma outcomes_Cons: "outcomes i (a # as) = (if is_settle i a then a # outcomes i as else outcomes i as)"
  by (simp add: outcomes_def)

lemma outcomes_applyTheme: "outcomes i (applyTheme cfg v) = []"
  by (simp add: applyTheme_def outcomes_def split: option.splits)

lemma outcomes_applyStyleVariables: "outcomes i (applyStyleVariables v) = []"
proof -
  have "outcomes i (concat (map (\<lambda>(key, val). if truthy val then [SetProperty key val] else []) kvs)) = []"
    for kvs :: "(string \<times> json) list"
    by (induction kvs) (auto simp: outcomes_def)
  then show ?thesis by (simp add: applyStyleVariables_def)
qed

lemma outcomes_handleInitialize: "outcomes i (snd (handleInitialize cfg data s)) = []"
  by (simp add: handleInitialize_def Let_def outcomes_append outcomes_Cons outcomes_Nil
      outcomes_applyTheme outcomes_applyStyleVariables sendNotification_def sendMessage_def
      split: option.splits)

lemma outcomes_handleToolInput: "outcomes i (handleToolInput cfg data) = []"
  by (simp add: handleToolInput_def outcomes_def split: option.splits)

lemma outcomes_handleToolResult: "outcomes i (handleToolResult cfg data) = []"
  by (simp add: handleToolResult_def outcomes_def split: option.splits)

lemma outcomes_handleHostContextChanged: "outcomes i (handleHostContextChanged cfg data) = []"
  by (simp add: handleHostContextChanged_def outcomes_append outcomes_Cons outcomes_Nil
      outcomes_applyTheme outcomes_applyStyleVariables)

lemma outcomes_teardown_finish: "outcomes i (teardown_finish j outcome) = []"
  by (simp add: teardown_finish_def outcomes_def split: settle.splits)

lemma outcomes_handleTeardown: "outcomes i (snd (handleTeardown cfg data s)) = []"
  by (simp add: handleTeardown_def outcomes_Cons outcomes_Nil outcomes_teardown_finish
      split: option.splits teardown_hook.splits)

lemma same_requests_refl: "same_requests s s"
  by (simp add: same_requests_def)

lemma same_handleInitialize: "same_requests s (fst (handleInitialize cfg data s))"
  by (simp add: handleInitialize_def Let_def same_requests_def)

lemma same_handleTeardown: "same_requests s (fst (handleTeardown cfg data s))"
  by (simp add: handleTeardown_def same_requests_def split: option.splits teardown_hook.splits)

lemma handleUnhandled_Inr:
  "handleUnhandled data s = Inr (s', as) \<Longrightarrow> s' = s \<and> outcomes i as = []"
  by (auto simp: handleUnhandled_def outcomes_def split: if_splits json.splits)

text \<open>A message that is not a response to any request leaves the requests alone.\<close>

lemma handleMessage_not_response:
  assumes "\<not> (is_response data \<and> truthy data \<and> typeof_object data)"
    and "handleMessage cfg data s = Inr (s', as)"
  shows "same_requests s s' \<and> outcomes i as = []"
proof -
  have nr: "\<not> is_response data" using assms(1) is_response_obj by blast
  show ?thesis
    using assms(2) nr
      same_handleInitialize[of s cfg data] outcomes_handleInitialize[of i cfg data s]
      same_handleTeardown[of s cfg data] outcomes_handleTeardown[of i cfg data s]
    by (auto simp: handleMessage_def same_requests_refl outcomes_Nil
        outcomes_handleToolInput outcomes_handleToolResult outcomes_handleHostContextChanged
        dest: handleUnhandled_Inr split: if_splits)
qed

text \<open>The response branch, for a request id other than the one of the message.\<close>

lemma handleResponse_other:
  assumes "get_prop data ''id'' \<noteq> JNum i"
  shows "pendingRequestsRef (fst (handleResponse data s)) i = pendingRequestsRef s i
       \<and> outcomes i (snd (handleResponse data s)) = []"
  using assms
  by (auto simp: handleResponse_def outcomes_def callTool_abort_def callTool_resume_def
      split: json.splits option.splits)

lemma handleResponse_frame:
  "requestIdRef (fst (handleResponse data s)) = requestIdRef s
   \<and> now (fst (handleResponse data s)) = now s
   \<and> timers (fst (handleResponse data s)) = timers s"
  by (auto simp: handleResponse_def split: json.splits option.splits)

lemma handleResponse_same:
  assumes "get_prop data ''id'' = JNum i"
  shows "pendingRequestsRef (fst (handleResponse data s)) i = None
       \<and> (case pendingRequestsRef s i of
             None \<Rightarrow> handleResponse data s = (s, [])
           | Some p \<Rightarrow> length (outcomes i (snd (handleResponse data s))) = 1)"
  using assms
  by (auto simp: handleResponse_def outcomes_def callTool_abort_def callTool_resume_def
      split: json.splits option.splits)

text \<open>Timers that fire.\<close>

lemma timeout_fired_frame:
  "requestIdRef (fst (timeout_fired j s)) = requestIdRef s
   \<and> now (fst (timeout_fired j s)) = now s
   \<and> timers (fst (timeout_fired j s)) = timers s"
  by (simp add: timeout_fired_def split: option.splits)

lemma timeout_fired_pending:
  "pendingRequestsRef (fst (timeout_fired j s)) i =
     (if i = j then None else pendingRequestsRef s i)"
  by (simp add: timeout_fired_def split: option.splits)

lemma timeout_fired_outcomes:
  "outcomes i (snd (timeout_fired j s)) =
     (if i = j \<and> pendingRequestsRef s i \<noteq> None then [Reject i (JStr ''Request timeout'')] else [])"
  by (auto simp: timeout_fired_def outcomes_def callTool_abort_def split: option.splits)

lemma fire_all_Cons:
  "fire_all (j # js) s =
     (fst (fire_all js (fst (timeout_fired j s))),
      snd (timeout_fired j s) @ snd (fire_all js (fst (timeout_fired j s))))"
  by (simp split: prod.splits)

lemma fire_all_frame:
  "requestIdRef (fst (fire_all js s)) = requestIdRef s
   \<and> now (fst (fire_all js s)) = now s
   \<and> timers (fst (fire_all js s)) = timers s"
proof (induction js arbitrary: s)
  case Nil
  show ?case by simp
next
  case (Cons j js)
  show ?case
    using Cons[of "fst (timeout_fired j s)"] timeout_fired_frame[of j s]
    by (simp add: fire_all_Cons del: fire_all.simps)
qed

lemma fire_all_pending:
  "pendingRequestsRef (fst (fire_all js s)) i =
     (if i \<in> set js then None else pendingRequestsRef s i)"
proof (induction js arbitrary: s)
  case Nil
  show ?case by simp
next
  case (Cons j js)
  show ?case
    using Cons[of "fst (timeout_fired j s)"]
    by (simp add: fire_all_Cons timeout_fired_pending del: fire_all.simps)
qed

lemma fire_all_outcomes:
  "outcomes i (snd (fire_all js s)) =
     (if i \<in> set js \<and> pendingRequestsRef s i \<noteq> None
      then [Reject i (JStr ''Request timeout'')] else [])"
proof (induction js arbitrary: s)
  case Nil
  show ?case by (simp add: outcomes_Nil)
next
  case (Cons j js)
  show ?case
    using Cons[of "fst (timeout_fired j s)"]
    by (auto simp: fire_all_Cons outcomes_append outcomes_Nil timeout_fired_pending
        timeout_fired_outcomes simp del: fire_all.simps)
qed

text \<open>
  One step and one request id: either the step calls neither closure of the request, and
  the request is pending afterwards only if it was before or is the one just made; or the
  step settles the request once, which was pending and no longer is.
\<close>

lemma handleMessage_outcomes:
  assumes "handleMessage cfg data s = Inr (s', as)"
  shows "requestIdRef s' = requestIdRef s \<and> now s' = now s \<and> timers s' = timers s
       \<and> (outcomes i as = [] \<and> (pendingRequestsRef s' i \<noteq> None \<longrightarrow> pendingRequestsRef s i \<noteq> None)
          \<or> length (outcomes i as) = 1 \<and> pendingRequestsRef s i \<noteq> None \<and> pendingRequestsRef s' i = None)"
proof (cases "is_response data \<and> truthy data \<and> typeof_object data")
  case False
  then show ?thesis
    using handleMessage_not_response[OF False assms, of i] by (simp add: same_requests_def)
next
  case True
  then have h: "handleResponse data s = (s', as)"
    using assms by (simp add: handleMessage_def)
  show ?thesis
  proof (cases "get_prop data ''id'' = JNum i")
    case False
    then show ?thesis
      using handleResponse_other[OF False, of s] handleResponse_frame[of data s] h by simp
  next
    case same: True
    show ?thesis
      using handleResponse_same[OF same, of s] handleResponse_frame[of data s] h
      by (cases "pendingRequestsRef s i") (auto simp: outcomes_Nil)
  qed
qed

lemma step_outcomes:
  assumes "step cfg ev s = Inr (s', as)"
  shows "requestIdRef s \<le> requestIdRef s'
       \<and> (outcomes i as = []
            \<and> (pendingRequestsRef s' i \<noteq> None \<longrightarrow>
                 pendingRequestsRef s i \<noteq> None \<or> i = requestIdRef s \<and> requestIdRef s' = i + 1)
          \<or> length (outcomes i as) = 1 \<and> pendingRequestsRef s i \<noteq> None
            \<and> pendingRequestsRef s' i = None)"
proof (cases ev)
  case (Message data)
  then show ?thesis
    using assms handleMessage_outcomes[of cfg data s s' as i] by (auto simp: step_def)
next
  case (CallTool toolName args)
  then show ?thesis
    using assms
    by (auto simp: step_def callTool_def sendRequest_def sendMessage_def Let_def outcomes_def)
next
  case (Notify m p)
  then show ?thesis
    using assms by (auto simp: step_def sendNotification_def sendMessage_def outcomes_def)
next
  case (Advance d)
  then have a: "advance d s = (s', as)" using assms by (simp add: step_def)
  let ?t = "now s + d"
  let ?js = "map snd (filter (\<lambda>(due, i). due \<le> ?t) (timers s))"
  let ?s1 = "s\<lparr>now := ?t, timers := filter (\<lambda>(due, i). \<not> due \<le> ?t) (timers s)\<rparr>"
  have f: "fire_all ?js ?s1 = (s', as)" using a by (simp add: advance_def Let_def)
  have 1: "requestIdRef s' = requestIdRef s"
    using fire_all_frame[of ?js ?s1] f by simp
  have 2: "pendingRequestsRef s' i = (if i \<in> set ?js then None else pendingRequestsRef s i)"
    using fire_all_pending[of ?js ?s1 i] f by simp
  have 3: "outcomes i as = (if i \<in> set ?js \<and> pendingRequestsRef s i \<noteq> None
      then [Reject i (JStr ''Request timeout'')] else [])"
    using fire_all_outcomes[of i ?js ?s1] f by simp
  show ?thesis using 1 2 3 by (auto split: if_splits)
next
  case (TeardownSettled k outcome)
  then show ?thesis
    using assms
    by (auto simp: step_def teardown_settled_def outcomes_teardown_finish outcomes_Nil
        split: option.splits)
qed

lemma settled_once_initial: "settled_once initial_state []"
  by (simp add: settled_once_def initial_state_def outcomes_Nil)

lemma settled_once_step:
  assumes "settled_once s tr" and "step cfg ev s = Inr (s', as)"
  shows "settled_once s' (tr @ as)"
  unfolding settled_once_def
proof (intro allI)
  fix i
  have inv: "(pendingRequestsRef s i \<noteq> None \<longrightarrow> outcomes i tr = [] \<and> i < requestIdRef s)"
    "length (outcomes i tr) \<le> 1" "(requestIdRef s \<le> i \<longrightarrow> outcomes i tr = [])"
    using assms(1) by (auto simp: settled_once_def)
  show "(pendingRequestsRef s' i \<noteq> None \<longrightarrow> outcomes i (tr @ as) = [] \<and> i < requestIdRef s')
        \<and> length (outcomes i (tr @ as)) \<le> 1
        \<and> (requestIdRef s' \<le> i \<longrightarrow> outcomes i (tr @ as) = [])"
    using step_outcomes[OF assms(2), of i] inv
    by (auto simp: outcomes_append)
qed

lemma settled_once_uncaught: "settled_once s tr \<Longrightarrow> settled_once s (tr @ [Uncaught e])"
  by (simp add: settled_once_def outcomes_append outcomes_Cons outcomes_Nil)

lemma settled_once_run:
  "settled_once s tr \<Longrightarrow> run es s = (s', tr') \<Longrightarrow> settled_once s' (tr @ tr')"
proof (induction es arbitrary: s s' tr tr')
  case Nil
  then show ?case by simp
next
  case (Cons ce es)
  obtain cfg ev where ce: "ce = (cfg, ev)" by (cases ce)
  show ?case
  proof (cases "step cfg ev s")
    case (Inl e)
    obtain s2 a2 where r: "run es s = (s2, a2)" by (cases "run es s")
    have eq: "s' = s2" "tr' = Uncaught e # a2"
      using Cons.prems(2) ce Inl r by auto
    have "settled_once s2 ((tr @ [Uncaught e]) @ a2)"
      using Cons.IH[OF settled_once_uncaught[OF Cons.prems(1)] r] .
    then show ?thesis using eq by simp
  next
    case (Inr sa)
    obtain s1 a1 where sa: "sa = (s1, a1)" by (cases sa)
    obtain s2 a2 where r: "run es s1 = (s2, a2)" by (cases "run es s1")
    have eq: "s' = s2" "tr' = a1 @ a2"
      using Cons.prems(2) ce Inr sa r by auto
    have "settled_once s1 (tr @ a1)"
      using settled_once_step[OF Cons.prems(1)] Inr sa by simp
    from Cons.IH[OF this r] show ?thesis using eq by simp
  qed
qed

lemma late_response_dropped:
  assumes "pendingRequestsRef s i = None" and "is_response data"
    and "get_prop data ''id'' = JNum i"
  shows "handleMessage cfg data s = Inr (s, [])"
  using assms is_response_obj[OF assms(2)]
  by (simp add: handleMessage_def handleResponse_def)

lemma timeout_fired_not_pending:
  "pendingRequestsRef s i = None \<Longrightarrow> timeout_fired i s = (s, [])"
  by (simp add: timeout_fired_def)

subsection \<open>One outcome for each request\<close>

text \<open>
  C2. In every run from the initial state, over any sequence of inbound messages, tool
  calls, timer expiries and teardown events, the promise of a request id has at most one
  terminal outcome: the trace holds at most one call of its \<open>resolve\<close> or \<open>reject\<close>
  closure (resolved with a result, rejected with a host error, or rejected with a
  timeout). Once it has one, the request is no longer pending; a response with that id
  and the firing of its timer change nothing and have no effect; and no continuation of
  the run gives the id another outcome.
\<close>

theorem at_most_one_outcome:
  assumes "run es initial_state = (s, tr)"
  shows "length (outcomes i tr) \<le> 1
       \<and> (outcomes i tr \<noteq> [] \<longrightarrow>
            pendingRequestsRef s i = None
          \<and> timeout_fired i s = (s, [])
          \<and> (\<forall>cfg data. is_response data \<and> get_prop data ''id'' = JNum i \<longrightarrow>
                 handleMessage cfg data s = Inr (s, []))
          \<and> (\<forall>es' s' tr'. run es' s = (s', tr') \<longrightarrow> outcomes i tr' = []))"
proof -
  have inv: "settled_once s tr"
    using settled_once_run[OF settled_once_initial assms] by simp
  then have one: "length (outcomes i tr) \<le> 1"
    by (simp add: settled_once_def)
  have rest: "pendingRequestsRef s i = None
          \<and> timeout_fired i s = (s, [])
          \<and> (\<forall>cfg data. is_response data \<and> get_prop data ''id'' = JNum i \<longrightarrow>
                 handleMessage cfg data s = Inr (s, []))
          \<and> (\<forall>es' s' tr'. run es' s = (s', tr') \<longrightarrow> outcomes i tr' = [])"
    if ne: "outcomes i tr \<noteq> []"
  proof -
    have p: "pendingRequestsRef s i = None"
      using inv ne by (auto simp: settled_once_def)
    have later: "outcomes i tr' = []" if r: "run es' s = (s', tr')" for es' s' tr'
    proof -
      have "length (outcomes i (tr @ tr')) \<le> 1"
        using settled_once_run[OF inv r] by (simp add: settled_once_def)
      then show ?thesis using ne by (cases "outcomes i tr") (auto simp: outcomes_append)
    qed
    show ?thesis
      using p late_response_dropped[OF p] timeout_fired_not_pending[OF p] later by blast
  qed
  show ?thesis using one rest by blast
qed

theorem at_most_one_outcome_witness:
  "outcomes 1 (snd (run example_run initial_state)) = [Resolve 1 (JObj [])]
   \<and> length (outcomes 1 (snd (run example_run initial_state))) \<le> 1
   \<and> pendingRequestsRef (fst (run example_run initial_state)) 1 = None"
proof -
  have r: "run example_run initial_state =
           (fst (run example_run initial_state), snd (run example_run initial_state))"
    by simp
  have o: "outcomes 1 (snd (run example_run initial_state)) = [Resolve 1 (JObj [])]"
    by (simp add: example_run_def step_def callTool_def sendRequest_def sendMessage_def Let_def
        initial_state_def app_config_def request_timeout_def handleMessage_def
        is_response_def handleResponse_def callTool_resume_def advance_def timeout_fired_def
        outcomes_def split: prod.splits)
  show ?thesis using at_most_one_outcome[OF r, of 1] o by simp
qed


subsection \<open>Timeouts\<close>

lemma step_frame:
  assumes "step cfg ev s = Inr (s', as)"
  shows "now s' = now s + (case ev of Advance d \<Rightarrow> d | _ \<Rightarrow> 0)"
    and "\<forall>d j. (d, j) \<in> set (timers s') \<longrightarrow>
           (d, j) \<in> set (timers s) \<or> j = requestIdRef s \<and> requestIdRef s' = j + 1"
    and "\<forall>d j. (d, j) \<in> set (timers s) \<longrightarrow> now s' < d \<longrightarrow> (d, j) \<in> set (timers s')"
proof -
  have "now s' = now s + (case ev of Advance d \<Rightarrow> d | _ \<Rightarrow> 0)
     \<and> (\<forall>d j. (d, j) \<in> set (timers s') \<longrightarrow> (d, j) \<in> set (timers s) \<or> j = requestIdRef s \<and> requestIdRef s' = j + 1)
     \<and> (\<forall>d j. (d, j) \<in> set (timers s) \<longrightarrow> now s' < d \<longrightarrow> (d, j) \<in> set (timers s'))"
  proof (cases ev)
    case (Message data)
    then show ?thesis
      using assms handleMessage_outcomes[of cfg data s s' as 0] by (auto simp: step_def)
  next
    case (CallTool toolName args)
    then show ?thesis
      using assms by (auto simp: step_def callTool_def sendRequest_def Let_def)
  next
    case (Notify m p)
    then show ?thesis using assms by (auto simp: step_def)
  next
    case (Advance d)
    let ?t = "now s + d"
    let ?js = "map snd (filter (\<lambda>(due, i). due \<le> ?t) (timers s))"
    let ?s1 = "s\<lparr>now := ?t, timers := filter (\<lambda>(due, i). \<not> due \<le> ?t) (timers s)\<rparr>"
    have f: "fire_all ?js ?s1 = (s', as)"
      using Advance assms by (simp add: step_def advance_def Let_def)
    show ?thesis
      using fire_all_frame[of ?js ?s1] f Advance by auto
  next
    case (TeardownSettled k outcome)
    then show ?thesis
      using assms by (auto simp: step_def teardown_settled_def split: option.splits)
  qed
  then show "now s' = now s + (case ev of Advance d \<Rightarrow> d | _ \<Rightarrow> 0)"
    and "\<forall>d j. (d, j) \<in> set (timers s') \<longrightarrow>
           (d, j) \<in> set (timers s) \<or> j = requestIdRef s \<and> requestIdRef s' = j + 1"
    and "\<forall>d j. (d, j) \<in> set (timers s) \<longrightarrow> now s' < d \<longrightarrow> (d, j) \<in> set (timers s')"
    by blast+
qed

lemma timers_known_step:
  assumes "timers_known s" and "step cfg ev s = Inr (s', as)"
  shows "timers_known s'"
  using assms(1) step_frame(2)[OF assms(2)] step_outcomes[OF assms(2), of 0]
  by (fastforce simp: timers_known_def)

lemma timers_known_run:
  "timers_known s \<Longrightarrow> run es s = (s', tr) \<Longrightarrow> timers_known s'"
proof (induction es arbitrary: s s' tr)
  case Nil
  then show ?case by simp
next
  case (Cons ce es)
  obtain cfg ev where ce: "ce = (cfg, ev)" by (cases ce)
  show ?case
  proof (cases "step cfg ev s")
    case (Inl e)
    then show ?thesis
      using Cons.prems ce Cons.IH[of s] by (auto split: prod.splits)
  next
    case (Inr sa)
    obtain s1 a1 where sa: "sa = (s1, a1)" by (cases sa)
    have "timers_known s1" using timers_known_step[OF Cons.prems(1)] Inr sa by simp
    then show ?thesis
      using Cons.prems(2) ce Inr sa Cons.IH[of s1] by (auto split: prod.splits)
  qed
qed

lemma now_run: "run es s = (s', tr) \<Longrightarrow> now s' = now s + elapsed es"
proof (induction es arbitrary: s s' tr)
  case Nil
  then show ?case by simp
next
  case (Cons ce es)
  obtain cfg ev where ce: "ce = (cfg, ev)" by (cases ce)
  show ?case
  proof (cases "step cfg ev s")
    case (Inl e)
    then have "ev \<noteq> Advance d" for d by (auto simp: step_def)
    then have el: "elapsed ((cfg, ev) # es) = elapsed es" by (cases ev) auto
    show ?thesis
      using Inl Cons.prems ce Cons.IH[of s] el by (auto split: prod.splits)
  next
    case (Inr sa)
    obtain s1 a1 where sa: "sa = (s1, a1)" by (cases sa)
    have n: "now s1 = now s + (case ev of Advance d \<Rightarrow> d | _ \<Rightarrow> 0)"
      using step_frame(1) Inr sa by simp
    have el: "elapsed ((cfg, ev) # es) = (case ev of Advance d \<Rightarrow> d | _ \<Rightarrow> 0) + elapsed es"
      by (cases ev) auto
    show ?thesis
      using Cons.prems ce Inr sa Cons.IH[of s1] n el by (auto split: prod.splits)
  qed
qed

lemma timers_known_initial: "timers_known initial_state"
  by (simp add: timers_known_def initial_state_def)

text \<open>A request that is no longer pending stays so, and gets no outcome.\<close>

lemma done_step:
  assumes "pendingRequestsRef s i = None" and "i < requestIdRef s"
    and "step cfg ev s = Inr (s', as)"
  shows "pendingRequestsRef s' i = None \<and> i < requestIdRef s' \<and> outcomes i as = []"
  using step_outcomes[OF assms(3), of i] assms(1,2) by auto

lemma done_run:
  "pendingRequestsRef s i = None \<Longrightarrow> i < requestIdRef s \<Longrightarrow> run es s = (s', tr)
   \<Longrightarrow> pendingRequestsRef s' i = None \<and> i < requestIdRef s' \<and> outcomes i tr = []"
proof (induction es arbitrary: s s' tr)
  case Nil
  then show ?case by (auto simp: outcomes_Nil)
next
  case (Cons ce es)
  obtain cfg ev where ce: "ce = (cfg, ev)" by (cases ce)
  show ?case
  proof (cases "step cfg ev s")
    case (Inl e)
    obtain s2 a2 where r: "run es s = (s2, a2)" by (cases "run es s")
    have eq: "s' = s2" "tr = Uncaught e # a2"
      using Cons.prems(3) ce Inl r by auto
    show ?thesis
      using Cons.IH[OF Cons.prems(1,2) r] eq by (simp add: outcomes_Cons)
  next
    case (Inr sa)
    obtain s1 a1 where sa: "sa = (s1, a1)" by (cases sa)
    obtain s2 a2 where r: "run es s1 = (s2, a2)" by (cases "run es s1")
    have eq: "s' = s2" "tr = a1 @ a2"
      using Cons.prems(3) ce Inr sa r by auto
    have d: "pendingRequestsRef s1 i = None \<and> i < requestIdRef s1 \<and> outcomes i a1 = []"
      using done_step[OF Cons.prems(1,2)] Inr sa by simp
    show ?thesis
      using Cons.IH[OF _ _ r] d eq by (simp add: outcomes_append)
  qed
qed

text \<open>A message that is not a response to request \<open>i\<close> leaves that request alone.\<close>

lemma handleMessage_other:
  assumes "\<not> (is_response data \<and> get_prop data ''id'' = JNum i)"
    and "handleMessage cfg data s = Inr (s', as)"
  shows "pendingRequestsRef s' i = pendingRequestsRef s i \<and> outcomes i as = []
       \<and> requestIdRef s' = requestIdRef s \<and> now s' = now s \<and> timers s' = timers s"
proof (cases "is_response data \<and> truthy data \<and> typeof_object data")
  case False
  then show ?thesis
    using handleMessage_not_response[OF False assms(2), of i] by (simp add: same_requests_def)
next
  case True
  then have h: "handleResponse data s = (s', as)"
    using assms(2) by (simp add: handleMessage_def)
  have "get_prop data ''id'' \<noteq> JNum i" using True assms(1) by simp
  then show ?thesis
    using handleResponse_other[of data i s] handleResponse_frame[of data s] h by simp
qed

text \<open>Time passes: what the timers that come due do.\<close>

lemma advance_parts:
  assumes "advance d s = (s', as)"
  shows "requestIdRef s' = requestIdRef s" 
    and "now s' = now s + d"
    and "timers s' = filter (\<lambda>(due, i). \<not> due \<le> now s + d) (timers s)"
    and "pendingRequestsRef s' i =
          (if i \<in> snd ` {x \<in> set (timers s). fst x \<le> now s + d} then None
           else pendingRequestsRef s i)"
    and "outcomes i as =
          (if i \<in> snd ` {x \<in> set (timers s). fst x \<le> now s + d} \<and> pendingRequestsRef s i \<noteq> None
           then [Reject i (JStr ''Request timeout'')] else [])"
proof -
  let ?t = "now s + d"
  let ?js = "map snd (filter (\<lambda>(due, i). due \<le> ?t) (timers s))"
  let ?s1 = "s\<lparr>now := ?t, timers := filter (\<lambda>(due, i). \<not> due \<le> ?t) (timers s)\<rparr>"
  have f: "fire_all ?js ?s1 = (s', as)"
    using assms by (simp add: advance_def Let_def)
  have js: "set ?js = snd ` {x \<in> set (timers s). fst x \<le> ?t}"
    by (simp add: case_prod_unfold)
  show "requestIdRef s' = requestIdRef s" "now s' = now s + d"
    "timers s' = filter (\<lambda>(due, i). \<not> due \<le> now s + d) (timers s)"
    using fire_all_frame[of ?js ?s1] f by simp_all
  show "pendingRequestsRef s' i =
          (if i \<in> snd ` {x \<in> set (timers s). fst x \<le> now s + d} then None
           else pendingRequestsRef s i)"
    using fire_all_pending[of ?js ?s1 i] f unfolding js by simp
  show "outcomes i as =
          (if i \<in> snd ` {x \<in> set (timers s). fst x \<le> now s + d} \<and> pendingRequestsRef s i \<noteq> None
           then [Reject i (JStr ''Request timeout'')] else [])"
    using fire_all_outcomes[of i ?js ?s1] f unfolding js by simp
qed

text \<open>A waiting request when time passes, and when another call is made.\<close>

lemma waiting_advance:
  assumes "waiting i due s" and "advance d s = (s', as)"
  shows "(now s' < due \<and> waiting i due s' \<and> outcomes i as = [])
       \<or> (due \<le> now s' \<and> pendingRequestsRef s' i = None \<and> i < requestIdRef s'
          \<and> outcomes i as = [Reject i (JStr ''Request timeout'')])"
proof -
  note p = advance_parts[OF assms(2)]
  have w: "pendingRequestsRef s i \<noteq> None" "(due, i) \<in> set (timers s)"
    "\<forall>x \<in> set (timers s). snd x = i \<longrightarrow> fst x = due" "i < requestIdRef s"
    using assms(1) by (simp_all add: waiting_def)
  show ?thesis
  proof (cases "now s + d < due")
    case True
    have notin: "i \<notin> snd ` {x \<in> set (timers s). fst x \<le> now s + d}"
    proof
      assume "i \<in> snd ` {x \<in> set (timers s). fst x \<le> now s + d}"
      then obtain x where x: "x \<in> set (timers s)" "fst x \<le> now s + d" "snd x = i" by auto
      then have "fst x = due" using w(3) by blast
      then show False using x(2) True by simp
    qed
    have pe: "pendingRequestsRef s' i \<noteq> None" using p(4)[of i] notin w(1) by simp
    have ou: "outcomes i as = []" using p(5)[of i] notin by simp
    have t1: "(due, i) \<in> set (timers s')" using p(3) w(2) True by simp
    have t2: "\<forall>x \<in> set (timers s'). snd x = i \<longrightarrow> fst x = due" using p(3) w(3) by simp
    have "waiting i due s'"
      unfolding waiting_def using pe t1 t2 p(1,2) True w(4) by simp
    then show ?thesis using ou p(2) True by simp
  next
    case False
    have "(due, i) \<in> {x \<in> set (timers s). fst x \<le> now s + d}" using w(2) False by simp
    then have isin: "i \<in> snd ` {x \<in> set (timers s). fst x \<le> now s + d}"
      by (metis snd_conv imageI)
    have pe: "pendingRequestsRef s' i = None" using p(4)[of i] isin by simp
    have ou: "outcomes i as = [Reject i (JStr ''Request timeout'')]"
      using p(5)[of i] isin w(1) by simp
    show ?thesis using pe ou p(1,2) False w(4) by simp
  qed
qed

lemma waiting_callTool:
  assumes "waiting i due s" and "callTool cfg toolName args s = (j, s', as)"
  shows "now s' < due \<and> waiting i due s' \<and> outcomes i as = []"
proof -
  have w: "pendingRequestsRef s i \<noteq> None" "(due, i) \<in> set (timers s)"
    "\<forall>x \<in> set (timers s). snd x = i \<longrightarrow> fst x = due" "i < requestIdRef s" "now s < due"
    using assms(1) by (simp_all add: waiting_def)
  have s': "s' = s\<lparr>requestIdRef := requestIdRef s + 1,
         pendingRequestsRef := (pendingRequestsRef s)(requestIdRef s \<mapsto> Pending (onToolResult cfg)),
         timers := timers s @ [(now s + request_timeout, requestIdRef s)]\<rparr>"
    and as: "as = [PostMessage (JObj [(''jsonrpc'', JStr ''2.0''), (''id'', JNum (requestIdRef s)),
                          (''method'', JStr ''tools/call''),
                          (''params'', JObj [(''name'', JStr toolName), (''arguments'', args)])])]"
    using assms(2) by (auto simp add: callTool_def sendRequest_def sendMessage_def Let_def)
  have ne: "i \<noteq> requestIdRef s" using w(4) by simp
  have "waiting i due s'"
    unfolding waiting_def s' using w ne by simp
  moreover have "outcomes i as = []" unfolding as by (simp add: outcomes_def)
  moreover have "now s' < due" unfolding s' using w(5) by simp
  ultimately show ?thesis by simp
qed

text \<open>One step of a waiting request: it goes on waiting, or its timer fires.\<close>

lemma waiting_same:
  assumes "waiting i due s" and "same_requests s s'"
  shows "waiting i due s'"
  using assms unfolding waiting_def same_requests_def by simp

lemma waiting_step:
  assumes "waiting i due s" and "\<not> is_response_for i ev"
    and "step cfg ev s = Inr (s', as)"
  shows "(now s' < due \<and> waiting i due s' \<and> outcomes i as = [])
       \<or> (due \<le> now s' \<and> pendingRequestsRef s' i = None \<and> i < requestIdRef s'
          \<and> outcomes i as = [Reject i (JStr ''Request timeout'')])"
proof (cases ev)
  case (Message data)
  then have "\<not> (is_response data \<and> get_prop data ''id'' = JNum i)"
    and "handleMessage cfg data s = Inr (s', as)"
    using assms(2,3) by (auto simp: step_def)
  from handleMessage_other[OF this]
  have f: "pendingRequestsRef s' i = pendingRequestsRef s i" "outcomes i as = []"
    "requestIdRef s' = requestIdRef s" "now s' = now s" "timers s' = timers s"
    by simp_all
  have "waiting i due s'"
    using assms(1) unfolding waiting_def f by simp
  then show ?thesis
    using f(2) by (simp add: waiting_def)
next
  case (CallTool toolName args)
  obtain j s1 a1 where c: "callTool cfg toolName args s = (j, s1, a1)"
    by (cases "callTool cfg toolName args s")
  then have "s' = s1" "as = a1" using CallTool assms(3) by (simp_all add: step_def)
  then show ?thesis using waiting_callTool[OF assms(1) c] by simp
next
  case (Notify m p)
  then have "s' = s" "as = sendNotification m p"
    using assms(3) by (auto simp: step_def)
  then show ?thesis
    using assms(1) by (simp add: waiting_def sendNotification_def sendMessage_def outcomes_def)
next
  case (Advance d)
  then have "advance d s = (s', as)" using assms(3) by (simp add: step_def)
  from waiting_advance[OF assms(1) this] show ?thesis .
next
  case (TeardownSettled k outcome)
  then have t: "teardown_settled k outcome s = (s', as)" using assms(3) by (simp add: step_def)
  then have "same_requests s s'" "outcomes i as = []"
    by (auto simp: teardown_settled_def same_requests_def outcomes_teardown_finish outcomes_Nil
        split: option.splits)
  then show ?thesis
    using waiting_same[OF assms(1)] assms(1) by (simp add: waiting_def same_requests_def)
qed

lemma waiting_run:
  "waiting i due s \<Longrightarrow> \<forall>(c, ev) \<in> set es. \<not> is_response_for i ev \<Longrightarrow> run es s = (s', tr)
   \<Longrightarrow> (if now s' < due then pendingRequestsRef s' i \<noteq> None \<and> outcomes i tr = []
        else pendingRequestsRef s' i = None \<and> i < requestIdRef s'
             \<and> outcomes i tr = [Reject i (JStr ''Request timeout'')])"
proof (induction es arbitrary: s s' tr)
  case Nil
  then show ?case by (simp add: waiting_def outcomes_Nil)
next
  case (Cons ce es)
  obtain cfg ev where ce: "ce = (cfg, ev)" by (cases ce)
  have quiet: "\<not> is_response_for i ev" "\<forall>(c, ev) \<in> set es. \<not> is_response_for i ev"
    using Cons.prems(2) ce by simp_all
  show ?case
  proof (cases "step cfg ev s")
    case (Inl e)
    obtain s2 a2 where r: "run es s = (s2, a2)" by (cases "run es s")
    have eq: "s' = s2" "tr = Uncaught e # a2"
      using Cons.prems(3) ce Inl r by simp_all
    show ?thesis
      using Cons.IH[OF Cons.prems(1) quiet(2) r] eq by (simp add: outcomes_Cons)
  next
    case (Inr sa)
    obtain s1 a1 where sa: "sa = (s1, a1)" by (cases sa)
    obtain s2 a2 where r: "run es s1 = (s2, a2)" by (cases "run es s1")
    have eq: "s' = s2" "tr = a1 @ a2"
      using Cons.prems(3) ce Inr sa r by simp_all
    have st: "step cfg ev s = Inr (s1, a1)" using Inr sa by simp
    from waiting_step[OF Cons.prems(1) quiet(1) st] show ?thesis
    proof
      assume a: "now s1 < due \<and> waiting i due s1 \<and> outcomes i a1 = []"
      then have w1: "waiting i due s1" and o1: "outcomes i a1 = []" by simp_all
      show ?thesis
        using Cons.IH[OF w1 quiet(2) r] eq o1 by (simp add: outcomes_append)
    next
      assume a: "due \<le> now s1 \<and> pendingRequestsRef s1 i = None \<and> i < requestIdRef s1
          \<and> outcomes i a1 = [Reject i (JStr ''Request timeout'')]"
      then have d1: "pendingRequestsRef s1 i = None" "i < requestIdRef s1"
        and o1: "outcomes i a1 = [Reject i (JStr ''Request timeout'')]"
        and t1: "due \<le> now s1" by simp_all
      have "due \<le> now s2" using t1 now_run[OF r] by simp
      then show ?thesis
        using done_run[OF d1 r] eq o1 by (simp add: outcomes_append)
    qed
  qed
qed

lemma waiting_after_callTool:
  assumes "timers_known s0" and "callTool cfg toolName args s0 = (i, s1, a1)"
  shows "waiting i (now s0 + request_timeout) s1 \<and> now s1 = now s0"
proof -
  have i: "i = requestIdRef s0"
    and s1: "s1 = s0\<lparr>requestIdRef := requestIdRef s0 + 1,
         pendingRequestsRef := (pendingRequestsRef s0)(requestIdRef s0 \<mapsto> Pending (onToolResult cfg)),
         timers := timers s0 @ [(now s0 + request_timeout, requestIdRef s0)]\<rparr>"
    using assms(2) by (auto simp add: callTool_def sendRequest_def Let_def)
  have old: "\<forall>x \<in> set (timers s0). snd x \<noteq> i"
    using assms(1) unfolding timers_known_def i by fastforce
  have "waiting i (now s0 + request_timeout) s1"
    unfolding waiting_def s1 using old i by (auto simp: request_timeout_def)
  then show ?thesis unfolding s1 by simp
qed

text \<open>
  C3. A request is made by \<open>callTool\<close> in a state reached from the initial state, and no
  response carrying its id arrives afterwards, whatever else happens (other messages,
  other calls, teardown events, or nothing at all). While less than the fixed timeout of
  30000 milliseconds (30 seconds) has passed, the request stays pending and has no
  outcome. Once the timeout has passed, the pending record is gone and the promise has
  been rejected exactly once, with "Request timeout". A response with that id that
  arrives afterwards is dropped without effect, and nothing later gives the request
  another outcome.
\<close>

theorem request_times_out:
  assumes "run es0 initial_state = (s0, tr0)"
    and "callTool cfg toolName args s0 = (i, s1, a1)"
    and "\<forall>(c, ev) \<in> set es. \<not> is_response_for i ev"
    and "run es s1 = (s2, tr)"
  shows "(elapsed es < 30000 \<longrightarrow> pendingRequestsRef s2 i \<noteq> None \<and> outcomes i tr = [])
       \<and> (30000 \<le> elapsed es \<longrightarrow>
            pendingRequestsRef s2 i = None
          \<and> outcomes i tr = [Reject i (JStr ''Request timeout'')]
          \<and> (\<forall>cfg' data. is_response data \<and> get_prop data ''id'' = JNum i \<longrightarrow>
                 handleMessage cfg' data s2 = Inr (s2, []))
          \<and> (\<forall>es' s' tr'. run es' s2 = (s', tr') \<longrightarrow>
                 pendingRequestsRef s' i = None \<and> outcomes i tr' = []))"
proof -
  let ?due = "now s0 + request_timeout"
  have k: "timers_known s0"
    using timers_known_run[OF timers_known_initial assms(1)] .
  have w: "waiting i ?due s1" and n1: "now s1 = now s0"
    using waiting_after_callTool[OF k assms(2)] by simp_all
  have n2: "now s2 = now s0 + elapsed es"
    using now_run[OF assms(4)] n1 by simp
  have lt: "now s2 < ?due \<longleftrightarrow> elapsed es < 30000"
    using n2 by (simp add: request_timeout_def)
  note r = waiting_run[OF w assms(3,4)]
  have early: "pendingRequestsRef s2 i \<noteq> None \<and> outcomes i tr = []"
    if "elapsed es < 30000"
    using r that lt by simp
  have late: "pendingRequestsRef s2 i = None
          \<and> outcomes i tr = [Reject i (JStr ''Request timeout'')]
          \<and> (\<forall>cfg' data. is_response data \<and> get_prop data ''id'' = JNum i \<longrightarrow>
                 handleMessage cfg' data s2 = Inr (s2, []))
          \<and> (\<forall>es' s' tr'. run es' s2 = (s', tr') \<longrightarrow>
                 pendingRequestsRef s' i = None \<and> outcomes i tr' = [])"
    if "30000 \<le> elapsed es"
  proof -
    have d: "pendingRequestsRef s2 i = None" "i < requestIdRef s2"
      and o: "outcomes i tr = [Reject i (JStr ''Request timeout'')]"
      using r that lt by simp_all
    show ?thesis
      using d(1) o late_response_dropped[OF d(1)] done_run[OF d] by blast
  qed
  show ?thesis using early late by blast
qed

theorem request_times_out_witness:
  "outcomes 1 (snd (run quiet_run
       (fst (snd (callTool app_config ''todo_list'' (JObj []) initial_state)))))
     = [Reject 1 (JStr ''Request timeout'')]
   \<and> pendingRequestsRef (fst (run quiet_run
       (fst (snd (callTool app_config ''todo_list'' (JObj []) initial_state))))) 1 = None"
proof -
  let ?c = "callTool app_config ''todo_list'' (JObj []) initial_state"
  let ?r = "run quiet_run (fst (snd ?c))"
  have h1: "run [] initial_state = (initial_state, [])" by simp
  have h2: "?c = (1, fst (snd ?c), snd (snd ?c))"
    by (simp add: callTool_def sendRequest_def Let_def initial_state_def)
  have h3: "\<forall>(c, ev) \<in> set quiet_run. \<not> is_response_for 1 ev"
    by (simp add: quiet_run_def is_response_def)
  have h4: "?r = (fst ?r, snd ?r)" by simp
  have h5: "30000 \<le> elapsed quiet_run" by (simp add: quiet_run_def)
  show ?thesis
    using request_times_out[OF h1 h2 h3 h4] h5 by simp
qed

subsection \<open>Results of tool calls\<close>

text \<open>While a request stays pending, its record is the one \<open>callTool\<close> made.\<close>

lemma pending_kept_step:
  assumes "i < requestIdRef s" and "step cfg ev s = Inr (s', as)"
    and "pendingRequestsRef s' i \<noteq> None"
  shows "pendingRequestsRef s' i = pendingRequestsRef s i \<and> i < requestIdRef s'"
proof (cases ev)
  case (Message data)
  then have h: "handleMessage cfg data s = Inr (s', as)" using assms(2) by (simp add: step_def)
  show ?thesis
  proof (cases "is_response data \<and> truthy data \<and> typeof_object data")
    case False
    then show ?thesis
      using handleMessage_not_response[OF False h, of i] assms(1) by (simp add: same_requests_def)
  next
    case True
    then have r: "handleResponse data s = (s', as)" using h by (simp add: handleMessage_def)
    have "pendingRequestsRef (fst (handleResponse data s)) i \<noteq> None \<longrightarrow>
          pendingRequestsRef (fst (handleResponse data s)) i = pendingRequestsRef s i"
      by (auto simp: handleResponse_def split: json.splits option.splits)
    then show ?thesis
      using r assms(1,3) handleResponse_frame[of data s] by simp
  qed
next
  case (CallTool toolName args)
  then show ?thesis
    using assms by (auto simp: step_def callTool_def sendRequest_def Let_def)
next
  case (Notify m p)
  then show ?thesis using assms by (auto simp: step_def)
next
  case (Advance d)
  then have a: "advance d s = (s', as)" using assms(2) by (simp add: step_def)
  show ?thesis
    using advance_parts(1)[OF a] advance_parts(4)[OF a, of i] assms(1,3)
    by (simp split: if_splits)
next
  case (TeardownSettled k outcome)
  then show ?thesis
    using assms by (auto simp: step_def teardown_settled_def split: option.splits)
qed

lemma pending_kept_run:
  "i < requestIdRef s \<Longrightarrow> run es s = (s', tr) \<Longrightarrow> pendingRequestsRef s' i \<noteq> None
   \<Longrightarrow> pendingRequestsRef s' i = pendingRequestsRef s i"
proof (induction es arbitrary: s s' tr)
  case Nil
  then show ?case by simp
next
  case (Cons ce es)
  obtain cfg ev where ce: "ce = (cfg, ev)" by (cases ce)
  show ?case
  proof (cases "step cfg ev s")
    case (Inl e)
    obtain s2 a2 where r: "run es s = (s2, a2)" by (cases "run es s")
    have eq: "s' = s2" using Cons.prems(2) ce Inl r by simp
    show ?thesis using Cons.IH[OF Cons.prems(1) r] Cons.prems(3) eq by simp
  next
    case (Inr sa)
    obtain s1 a1 where sa: "sa = (s1, a1)" by (cases sa)
    obtain s2 a2 where r: "run es s1 = (s2, a2)" by (cases "run es s1")
    have eq: "s' = s2" using Cons.prems(2) ce Inr sa r by simp
    have st: "step cfg ev s = Inr (s1, a1)" using Inr sa by simp
    have mono: "i < requestIdRef s1"
      using step_outcomes[OF st, of i] Cons.prems(1) by simp
    have 1: "pendingRequestsRef s2 i = pendingRequestsRef s1 i"
      using Cons.IH[OF mono r] Cons.prems(3) eq by simp
    then have "pendingRequestsRef s1 i \<noteq> None" using Cons.prems(3) eq by simp
    from pending_kept_step[OF Cons.prems(1) st this] show ?thesis using 1 eq by simp
  qed
qed

text \<open>
  C6. A \<open>callTool\<close> call is made, anything may happen next, and while the request is
  still pending a response with its id and no error arrives. Then the call resolves:
  the request's promise is resolved with the response's result, the result callback
  that the call captured (the \<open>onToolResult\<close> registered when \<open>callTool\<close> was invoked)
  is invoked exactly once with that same result, and \<open>callTool\<close> returns it. That
  callback is the one an unsolicited \<open>tool-result\<close> notification is given to.
\<close>

theorem callTool_result_callback:
  assumes "onToolResult cfg = Some cb"
    and "callTool cfg toolName args s0 = (i, s1, a1)"
    and "run es s1 = (s, tr)"
    and "pendingRequestsRef s i \<noteq> None"
    and "is_response data"
    and "get_prop data ''id'' = JNum i"
    and "\<not> truthy (get_prop data ''error'')"
    and "get_prop notif ''id'' = JUndefined"
    and "get_prop notif ''method'' = JStr ''ui/notifications/tool-result''"
    and "truthy (get_prop notif ''params'')"
  shows "handleMessage cfg' data s =
         Inr (s\<lparr>pendingRequestsRef := (pendingRequestsRef s)(i := None)\<rparr>,
              [Resolve i (get_prop data ''result''),
               Invoke cb (get_prop data ''result''),
               Return i (get_prop data ''result'')])
       \<and> handleMessage cfg notif s = Inr (s, [Invoke cb (get_prop notif ''params'')])"
proof -
  have p1: "pendingRequestsRef s1 i = Some (Pending (Some cb))" and f: "i < requestIdRef s1"
    using assms(1,2) by (auto simp: callTool_def sendRequest_def Let_def)
  have p: "pendingRequestsRef s i = Some (Pending (Some cb))"
    using pending_kept_run[OF f assms(3,4)] p1 by simp
  have a: "handleMessage cfg' data s =
         Inr (s\<lparr>pendingRequestsRef := (pendingRequestsRef s)(i := None)\<rparr>,
              [Resolve i (get_prop data ''result''),
               Invoke cb (get_prop data ''result''),
               Return i (get_prop data ''result'')])"
    using assms(5,6,7) is_response_obj[OF assms(5)] p
    by (simp add: handleMessage_def handleResponse_def callTool_resume_def)
  have b: "handleMessage cfg notif s = Inr (s, [Invoke cb (get_prop notif ''params'')])"
    using assms(1,8,9,10) method_obj[OF assms(9)]
    by (simp add: handleMessage_def is_response_def handleToolResult_def or_else_def)
  show ?thesis using a b by simp
qed

theorem callTool_result_callback_witness:
  "handleMessage (app_config\<lparr>onToolResult := None\<rparr>)
     (JObj [(''jsonrpc'', JStr ''2.0''), (''id'', JNum 1),
            (''result'', JObj [(''structuredContent'', JObj [(''todos'', JArr [])])])])
     (fst (run [(app_config, Advance 10000)]
        (fst (snd (callTool app_config ''todo_add'' (JObj [(''text'', JStr ''milk'')]) initial_state))))) =
   Inr ((fst (run [(app_config, Advance 10000)]
          (fst (snd (callTool app_config ''todo_add'' (JObj [(''text'', JStr ''milk'')]) initial_state)))))
          \<lparr>pendingRequestsRef := Map.empty\<rparr>,
        [Resolve 1 (JObj [(''structuredContent'', JObj [(''todos'', JArr [])])]),
         Invoke 0 (JObj [(''structuredContent'', JObj [(''todos'', JArr [])])]),
         Return 1 (JObj [(''structuredContent'', JObj [(''todos'', JArr [])])])])"
proof -
  let ?c = "callTool app_config ''todo_add'' (JObj [(''text'', JStr ''milk'')]) initial_state"
  let ?s = "fst (run [(app_config, Advance 10000)] (fst (snd ?c)))"
  let ?d = "JObj [(''jsonrpc'', JStr ''2.0''), (''id'', JNum 1),
            (''result'', JObj [(''structuredContent'', JObj [(''todos'', JArr [])])])]"
  let ?n = "JObj [(''jsonrpc'', JStr ''2.0''), (''method'', JStr ''ui/notifications/tool-result''),
            (''params'', JObj [(''structuredContent'', JObj [(''todos'', JArr [])])])]"
  have c: "?c = (1, fst (snd ?c), snd (snd ?c))"
    by (simp add: callTool_def sendRequest_def Let_def initial_state_def)
  have r: "run [(app_config, Advance 10000)] (fst (snd ?c)) =
           (?s, snd (run [(app_config, Advance 10000)] (fst (snd ?c))))"
    by simp
  have pm: "pendingRequestsRef ?s = [1 \<mapsto> Pending (Some 0)]"
    by (simp add: callTool_def sendRequest_def Let_def initial_state_def step_def advance_def
        request_timeout_def app_config_def)
  have p: "pendingRequestsRef ?s 1 \<noteq> None" unfolding pm by simp
  have e: "(pendingRequestsRef ?s)(1 := None) = Map.empty" unfolding pm by simp
  have "handleMessage (app_config\<lparr>onToolResult := None\<rparr>) ?d ?s =
         Inr (?s\<lparr>pendingRequestsRef := (pendingRequestsRef ?s)(1 := None)\<rparr>,
              [Resolve 1 (get_prop ?d ''result''),
               Invoke 0 (get_prop ?d ''result''),
               Return 1 (get_prop ?d ''result'')])"
    using callTool_result_callback[where cfg = app_config and cb = 0 and data = ?d
        and notif = ?n and cfg' = "app_config\<lparr>onToolResult := None\<rparr>", OF _ c r p]
    by (simp add: app_config_def is_response_def)
  then show ?thesis unfolding e by simp
qed

end
